theory Spec2Isabelle
  imports Main
begin

section \<open>Python text primitives used by pyTimeTracker.py\<close>

text \<open>
  Strings are character lists. A character of the model is a code point below 256 (ASCII
  and Latin-1); the classification functions below follow Python's \<^verbatim>\<open>str\<close> methods on
  that range. Code points from 256 on are not part of the model.
\<close>

definition is_digit :: "char \<Rightarrow> bool" where
  "is_digit c = (48 \<le> (of_char c :: nat) \<and> (of_char c :: nat) \<le> 57)"

definition is_alpha :: "char \<Rightarrow> bool" where
  "is_alpha c = ((65 \<le> (of_char c :: nat) \<and> (of_char c :: nat) \<le> 90) \<or>
                 (97 \<le> (of_char c :: nat) \<and> (of_char c :: nat) \<le> 122))"

text \<open>\<^verbatim>\<open>str.isalnum\<close> of one character: the ASCII letters and digits, and in Latin-1 the
  letters (U+00AA, U+00B5, U+00BA, U+00C0..U+00FF without the signs U+00D7 and U+00F7),
  the superscript digits U+00B2, U+00B3, U+00B9 and the fractions U+00BC..U+00BE.\<close>

definition isalnum :: "char \<Rightarrow> bool" where
  "isalnum c =
     (is_alpha c \<or> is_digit c \<or>
      (of_char c :: nat) \<in> {170, 178, 179, 181, 185, 186, 188, 189, 190} \<or>
      (192 \<le> (of_char c :: nat) \<and> (of_char c :: nat) \<le> 214) \<or>
      (216 \<le> (of_char c :: nat) \<and> (of_char c :: nat) \<le> 246) \<or>
      248 \<le> (of_char c :: nat))"

text \<open>Whitespace as \<^verbatim>\<open>int()\<close> skips it around a number: TAB, LF, VT, FF, CR, the space,
  and the Latin-1 spaces U+0085 and U+00A0. (FS..US, which \<^verbatim>\<open>str.isspace\<close> accepts, make
  \<^verbatim>\<open>int()\<close> raise.)\<close>

definition is_space :: "char \<Rightarrow> bool" where
  "is_space c = ((9 \<le> (of_char c :: nat) \<and> (of_char c :: nat) \<le> 13) \<or> (of_char c :: nat) = 32 \<or>
                 (of_char c :: nat) = 133 \<or> (of_char c :: nat) = 160)"

definition digit_of :: "char \<Rightarrow> nat" where
  "digit_of c = of_char c - 48"

definition digit_char :: "nat \<Rightarrow> char" where
  "digit_char n = char_of (48 + n)"

text \<open>\<^verbatim>\<open>"%d" % n\<close> for a natural number and for an integer.\<close>

fun show_nat :: "nat \<Rightarrow> string" where
  "show_nat n = (if n < 10 then [digit_char n] else show_nat (n div 10) @ [digit_char (n mod 10)])"

declare show_nat.simps [simp del]

definition show_int :: "int \<Rightarrow> string" where
  "show_int i = (if i < 0 then CHR ''-'' # show_nat (nat (- i)) else show_nat (nat i))"

text \<open>
  \<^verbatim>\<open>"%02d" % n\<close> and \<^verbatim>\<open>f"{n:02d}"\<close>: zero padding to width two. A negative number
  already has two characters, so only 0..9 are padded.
\<close>

definition pad2 :: "int \<Rightarrow> string" where
  "pad2 i = (if 0 \<le> i \<and> i < 10 then CHR ''0'' # show_int i else show_int i)"

text \<open>\<^verbatim>\<open>"%06d" % n\<close>, used for the microseconds of a timedelta.\<close>

definition pad6 :: "int \<Rightarrow> string" where
  "pad6 i = (if 0 \<le> i then replicate (6 - length (show_int i)) CHR ''0'' @ show_int i
             else show_int i)"

text \<open>\<^verbatim>\<open>s.split(sep)\<close> for a one-character separator: always at least one part.\<close>

fun py_split :: "char \<Rightarrow> string \<Rightarrow> string list" where
  "py_split sep [] = [[]]"
| "py_split sep (c # cs) =
     (if c = sep then [] # py_split sep cs
      else (case py_split sep cs of [] \<Rightarrow> [[c]] | p # ps \<Rightarrow> (c # p) # ps))"

text \<open>
  \<^verbatim>\<open>int(s)\<close> on a string, base ten: surrounding whitespace is dropped, one sign is
  allowed, then digits, where single underscores may separate digits. Anything else
  raises ValueError, which is \<open>None\<close> here. (The interpreter's limit on the number of
  digits it converts, 4300 by default, is not part of the model.)
\<close>

definition strip :: "string \<Rightarrow> string" where
  "strip s = rev (dropWhile is_space (rev (dropWhile is_space s)))"

fun digits_val :: "nat \<Rightarrow> string \<Rightarrow> nat option" where
  "digits_val acc [] = Some acc"
| "digits_val acc (c # cs) =
     (if is_digit c then digits_val (10 * acc + digit_of c) cs
      else if c = CHR ''_'' then
        (case cs of [] \<Rightarrow> None
         | d # ds \<Rightarrow> if is_digit d then digits_val (10 * acc + digit_of d) ds else None)
      else None)"

definition py_nat :: "string \<Rightarrow> nat option" where
  "py_nat s = (case s of [] \<Rightarrow> None
               | c # cs \<Rightarrow> if is_digit c then digits_val (digit_of c) cs else None)"

definition py_int :: "string \<Rightarrow> int option" where
  "py_int s = (case strip s of [] \<Rightarrow> None
     | c # cs \<Rightarrow>
         if c = CHR ''-'' then map_option (\<lambda>n. - int n) (py_nat cs)
         else if c = CHR ''+'' then map_option int (py_nat cs)
         else map_option int (py_nat (c # cs)))"

section \<open>Module-level functions\<close>

text \<open>\<^verbatim>\<open>sanitize_table_name\<close>: spaces become underscores, every other character that is
  neither alphanumeric nor an underscore is dropped, and the result is prefixed.\<close>

definition sanitize_table_name :: "string \<Rightarrow> string" where
  "sanitize_table_name title =
     ''project_'' @ filter (\<lambda>e. isalnum e \<or> e = CHR ''_'')
                       (map (\<lambda>e. if e = CHR '' '' then CHR ''_'' else e) title)"

section \<open>datetime.timedelta\<close>

record timedelta =
  days :: int
  seconds :: int
  microseconds :: int

text \<open>
  \<^verbatim>\<open>end_time_dt - start_time_dt\<close>. The start was parsed from a text of second precision,
  so it has no microseconds; \<^verbatim>\<open>datetime.now()\<close> has. Timestamps are the number of
  seconds they denote on the local wall clock. The result is normalised as Python
  does: \<open>0 \<le> seconds < 86400\<close>, the sign lives in \<open>days\<close>.
\<close>

definition timedelta_between :: "int \<Rightarrow> int \<Rightarrow> nat \<Rightarrow> timedelta" where
  "timedelta_between start_s now_s now_us =
     \<lparr>days = (now_s - start_s) div 86400, seconds = (now_s - start_s) mod 86400,
      microseconds = int now_us\<rparr>"

text \<open>\<^verbatim>\<open>timedelta.__str__\<close>.\<close>

definition timedelta_str :: "timedelta \<Rightarrow> string" where
  "timedelta_str td =
     (let mm = seconds td div 60; ss = seconds td mod 60;
          hh = mm div 60; mm' = mm mod 60;
          s = show_int hh @ '':'' @ pad2 mm' @ '':'' @ pad2 ss;
          s' = (if days td \<noteq> 0
                then show_int (days td) @ '' day'' @ (if \<bar>days td\<bar> \<noteq> 1 then ''s'' else [])
                     @ '', '' @ s
                else s)
      in if microseconds td \<noteq> 0 then s' @ ''.'' @ pad6 (microseconds td) else s')"

text \<open>
  \<^verbatim>\<open>int(duration.total_seconds())\<close>: the exact quotient truncated towards zero
  (the float is exact for every span the datetime type can hold below some 500 years).
\<close>

definition int_total_seconds :: "timedelta \<Rightarrow> int" where
  "int_total_seconds td =
     (let whole = days td * 86400 + seconds td
      in if whole < 0 \<and> 0 < microseconds td then whole + 1 else whole)"

text \<open>\<^verbatim>\<open>str(duration).split('.')[0]\<close>: the text written to the duration column.\<close>

definition duration_str :: "timedelta \<Rightarrow> string" where
  "duration_str td = (case py_split CHR ''.'' (timedelta_str td) of [] \<Rightarrow> [] | p # ps \<Rightarrow> p)"

text \<open>
  The body of the \<^verbatim>\<open>try\<close> in both summing loops:
  \<^verbatim>\<open>h, m, s = map(int, dur.split(':'))\<close> and \<^verbatim>\<open>h * 3600 + m * 60 + s\<close>.
  \<open>None\<close> stands for the exception the bare \<^verbatim>\<open>except\<close> swallows (wrong number of
  parts or a part that is no integer).
\<close>

definition hms_seconds :: "string \<Rightarrow> int option" where
  "hms_seconds t =
     (case map py_int (py_split CHR '':'' t) of
        [Some h, Some m, Some s] \<Rightarrow> Some (h * 3600 + m * 60 + s)
      | _ \<Rightarrow> None)"

text \<open>Two shapes of text, named to state what \<open>timedelta_str\<close> yields: the clock part
  \<^verbatim>\<open>H:MM:SS\<close> with the hours unpadded, and the day prefix \<^verbatim>\<open>N day, \<close> or \<^verbatim>\<open>N days, \<close>.\<close>

definition hms_text :: "int \<Rightarrow> int \<Rightarrow> int \<Rightarrow> string" where
  "hms_text h m s = show_int h @ '':'' @ pad2 m @ '':'' @ pad2 s"

definition days_text :: "int \<Rightarrow> string" where
  "days_text d = show_int d @ '' day'' @ (if \<bar>d\<bar> \<noteq> 1 then ''s'' else []) @ '', ''"

text \<open>The f-string that renders the cumulative seconds in \<^verbatim>\<open>stop_project\<close>
  (Python's \<^verbatim>\<open>//\<close> and \<^verbatim>\<open>%\<close> floor, as \<open>div\<close> and \<open>mod\<close> on \<open>int\<close> do).\<close>

definition cumulative_str :: "int \<Rightarrow> string" where
  "cumulative_str n = pad2 (n div 3600) @ '':'' @ pad2 ((n mod 3600) div 60) @ '':'' @ pad2 (n mod 60)"

section \<open>The store\<close>

text \<open>
  The SQLite file is modelled by its contents. \<open>projects_master\<close> is the registry table
  in the order a \<^verbatim>\<open>SELECT\<close> without \<^verbatim>\<open>ORDER BY\<close> lists it (insertion order). The catalog
  of per-project tables is an association list from table name to rows, rows in
  insertion order. A timestamp column holds the number of seconds its
  \<^verbatim>\<open>%Y-%m-%d %H:%M:%S\<close> text denotes; \<^verbatim>\<open>NULL\<close> is \<open>None\<close>.

  SQLite resolves the name of a table without regard to the case of its ASCII letters,
  also when the name is quoted as the statements of the program quote it: the names
  "project_Alpha" and "project_alpha" denote one table. The \<^verbatim>\<open>UNIQUE\<close> constraints of the
  registry and the comparison \<^verbatim>\<open>title = ?\<close> compare texts exactly. The catalog is therefore
  keyed by the lower-cased table name (\<open>table_key\<close>), and every statement that names a
  table reaches it through \<open>lookup_table\<close>.
\<close>

record project =
  proj_id :: nat
  title :: string
  details :: string
  table_name :: string

record log_row =
  log_id :: nat
  start_time :: int
  end_time :: "int option"
  duration :: "string option"
  cumulative_time :: "string option"

text \<open>The application object: the store and the two attributes that hold the running
  project (\<^verbatim>\<open>self.current_project_id\<close>, \<^verbatim>\<open>self.current_project_table\<close>).\<close>

record app =
  projects_master :: "project list"
  tables :: "(string \<times> log_row list) list"
  current_project_id :: "nat option"
  current_project_table :: "string option"

datatype error =
    InputError          \<comment> \<open>"Please enter a project title."\<close>
  | DuplicateTitle      \<comment> \<open>"A project with this title already exists."\<close>
  | IntegrityError      \<comment> \<open>"A project with this title or table name already exists."\<close>
  | DatabaseError       \<comment> \<open>sqlite3.Error: a statement names a table that does not exist\<close>
  | ProjectNotFound     \<comment> \<open>"Project not found in the database."\<close>
  | AlreadyRunning      \<comment> \<open>"This project is already being tracked."\<close>
  | NoActiveLog         \<comment> \<open>"No active time log found for this project."\<close>
  | NoProjectRunning    \<comment> \<open>"No project is currently running."\<close>
  | NoSelection         \<comment> \<open>"Please select a project to start tracking."\<close>

text \<open>What a handler did: it completed, it returned without doing or reporting
  anything, or it reported an error.\<close>

datatype outcome = Done | Ignored | Failed error

definition init_app :: app where
  "init_app = \<lparr>projects_master = [], tables = [], current_project_id = None,
               current_project_table = None\<rparr>"

text \<open>An \<^verbatim>\<open>INTEGER PRIMARY KEY\<close> left out of an \<^verbatim>\<open>INSERT\<close> gets the largest id in the
  table plus one, and 1 in an empty table.\<close>

definition next_id :: "nat list \<Rightarrow> nat" where
  "next_id ids = Suc (fold max ids 0)"

definition is_open :: "log_row \<Rightarrow> bool" where
  "is_open r = (end_time r = None)"

text \<open>The key under which SQLite finds a table: ASCII upper-case letters folded to lower
  case.\<close>

definition to_lower :: "char \<Rightarrow> char" where
  "to_lower c = (if 65 \<le> (of_char c :: nat) \<and> (of_char c :: nat) \<le> 90
                 then char_of ((of_char c :: nat) + 32) else c)"

definition table_key :: "string \<Rightarrow> string" where
  "table_key tn = map to_lower tn"

text \<open>The rows of the table a statement names, \<open>None\<close> when there is no such table
  (the statement then raises sqlite3.OperationalError).\<close>

definition lookup_table :: "(string \<times> log_row list) list \<Rightarrow> string \<Rightarrow> log_row list option" where
  "lookup_table tbls tn = map_of tbls (table_key tn)"

text \<open>\<^verbatim>\<open>CREATE TABLE IF NOT EXISTS\<close>.\<close>

definition create_table :: "string \<Rightarrow> (string \<times> log_row list) list \<Rightarrow> (string \<times> log_row list) list" where
  "create_table tn tbls =
     (if lookup_table tbls tn = None then tbls @ [(table_key tn, [])] else tbls)"

text \<open>Replacing the rows of a table after an \<^verbatim>\<open>INSERT\<close> or \<^verbatim>\<open>UPDATE\<close> on it.\<close>

definition put_rows :: "string \<Rightarrow> log_row list \<Rightarrow> (string \<times> log_row list) list \<Rightarrow> (string \<times> log_row list) list" where
  "put_rows tn rows tbls = map (\<lambda>(k, v). if k = table_key tn then (k, rows) else (k, v)) tbls"

text \<open>\<^verbatim>\<open>INSERT INTO t (start_time) VALUES (?)\<close>: a new open row.\<close>

definition insert_log :: "int \<Rightarrow> log_row list \<Rightarrow> log_row list" where
  "insert_log now rows =
     rows @ [\<lparr>log_id = next_id (map log_id rows), start_time = now, end_time = None,
              duration = None, cumulative_time = None\<rparr>]"

text \<open>Python truthiness of the two attributes, as the guard of \<^verbatim>\<open>stop_project\<close> and the
  \<^verbatim>\<open>if filter_project_id:\<close> of \<^verbatim>\<open>update_total_time\<close> test it.\<close>

definition truthy_id :: "nat option \<Rightarrow> bool" where
  "truthy_id x = (case x of None \<Rightarrow> False | Some n \<Rightarrow> n \<noteq> 0)"

definition truthy_str :: "string option \<Rightarrow> bool" where
  "truthy_str x = (case x of None \<Rightarrow> False | Some t \<Rightarrow> t \<noteq> [])"

section \<open>TimeTrackerApp.start\_project\<close>

text \<open>
  The handler of the "Start Project" form. \<open>title_text\<close> and \<open>details_text\<close> are the two
  entry fields after \<^verbatim>\<open>.strip()\<close>, \<open>now\<close> is \<^verbatim>\<open>datetime.now()\<close> in whole seconds. The
  table is created and committed before the registry row is inserted; the registry
  insert raises IntegrityError when the table name is already registered.
\<close>

definition start_project :: "app \<Rightarrow> string \<Rightarrow> string \<Rightarrow> int \<Rightarrow> outcome \<times> app" where
  "start_project s title_text details_text now =
     (if title_text = [] then (Failed InputError, s)
      else if \<exists>p \<in> set (projects_master s). title p = title_text then (Failed DuplicateTitle, s)
      else
        let tn = sanitize_table_name title_text;
            s1 = s\<lparr>tables := create_table tn (tables s)\<rparr>
        in if \<exists>p \<in> set (projects_master s1). table_name p = tn then (Failed IntegrityError, s1)
           else
             let new_id = next_id (map proj_id (projects_master s1));
                 s2 = s1\<lparr>projects_master := projects_master s1 @
                              [\<lparr>proj_id = new_id, title = title_text, details = details_text,
                                table_name = tn\<rparr>],
                          current_project_id := Some new_id,
                          current_project_table := Some tn\<rparr>
             in (case lookup_table (tables s2) tn of
                   None \<Rightarrow> (Failed DatabaseError, s2)
                 | Some rows \<Rightarrow> (Done, s2\<lparr>tables := put_rows tn (insert_log now rows) (tables s2)\<rparr>)))"

subsection \<open>The handler when the store raises an error\<close>

text \<open>
  Each of the four statements that \<^verbatim>\<open>start_project\<close> executes can raise \<^verbatim>\<open>sqlite3.Error\<close>
  for a reason of the store itself (an I/O error, a full disk); the handler catches it,
  reports "Failed to start project" and returns. Nothing is rolled back: what the
  earlier statements wrote and committed stays, and so does an assignment to the
  running-project attributes made before. \<open>start_project_on err\<close> is the handler when the store
  raises at the statement \<open>err\<close> names, should the handler get that far; with
  \<open>NoStoreError\<close> it is \<open>start_project\<close>.
\<close>

datatype store_error =
    NoStoreError
  | SelectTitleFails      \<comment> \<open>the \<^verbatim>\<open>SELECT id ... WHERE title = ?\<close>\<close>
  | CreateTableFails      \<comment> \<open>the \<^verbatim>\<open>CREATE TABLE IF NOT EXISTS\<close>\<close>
  | InsertRegistryFails   \<comment> \<open>the \<^verbatim>\<open>INSERT INTO projects_master\<close>\<close>
  | InsertLogFails        \<comment> \<open>the \<^verbatim>\<open>INSERT INTO\<close> the log table\<close>

definition start_project_on :: "store_error \<Rightarrow> app \<Rightarrow> string \<Rightarrow> string \<Rightarrow> int \<Rightarrow> outcome \<times> app" where
  "start_project_on err s title_text details_text now =
     (if title_text = [] then (Failed InputError, s)
      else if err = SelectTitleFails then (Failed DatabaseError, s)
      else if \<exists>p \<in> set (projects_master s). title p = title_text then (Failed DuplicateTitle, s)
      else if err = CreateTableFails then (Failed DatabaseError, s)
      else
        let tn = sanitize_table_name title_text;
            s1 = s\<lparr>tables := create_table tn (tables s)\<rparr>
        in if err = InsertRegistryFails then (Failed DatabaseError, s1)
           else if \<exists>p \<in> set (projects_master s1). table_name p = tn then (Failed IntegrityError, s1)
           else
             let new_id = next_id (map proj_id (projects_master s1));
                 s2 = s1\<lparr>projects_master := projects_master s1 @
                              [\<lparr>proj_id = new_id, title = title_text, details = details_text,
                                table_name = tn\<rparr>],
                          current_project_id := Some new_id,
                          current_project_table := Some tn\<rparr>
             in if err = InsertLogFails then (Failed DatabaseError, s2)
                else
                  (case lookup_table (tables s2) tn of
                     None \<Rightarrow> (Failed DatabaseError, s2)
                   | Some rows \<Rightarrow> (Done, s2\<lparr>tables := put_rows tn (insert_log now rows) (tables s2)\<rparr>)))"

section \<open>TimeTrackerApp.start\_recording\<close>

text \<open>
  The handler of "Start Recording". \<open>selected\<close> is the text of the selected list item,
  if any. The only checks are the placeholder text, the registry lookup and the count
  of open rows of the project's own table.
\<close>

definition start_recording :: "app \<Rightarrow> string option \<Rightarrow> int \<Rightarrow> outcome \<times> app" where
  "start_recording s selected now =
     (case selected of
        None \<Rightarrow> (Failed NoSelection, s)
      | Some project_title \<Rightarrow>
          if project_title = ''No available projects to track.'' then (Ignored, s)
          else
            (case find (\<lambda>p. title p = project_title) (projects_master s) of
               None \<Rightarrow> (Failed ProjectNotFound, s)
             | Some result \<Rightarrow>
                 (case lookup_table (tables s) (table_name result) of
                    None \<Rightarrow> (Failed DatabaseError, s)
                  | Some rows \<Rightarrow>
                      if length (filter is_open rows) > 0 then (Failed AlreadyRunning, s)
                      else (Done, s\<lparr>tables := put_rows (table_name result) (insert_log now rows) (tables s),
                                    current_project_id := Some (proj_id result),
                                    current_project_table := Some (table_name result)\<rparr>))))"

section \<open>TimeTrackerApp.stop\_project\<close>

text \<open>\<^verbatim>\<open>WHERE end_time IS NULL ORDER BY id DESC LIMIT 1\<close>: the open row of greatest id.\<close>

definition last_open :: "log_row list \<Rightarrow> log_row option" where
  "last_open rows =
     (case filter is_open rows of
        [] \<Rightarrow> None
      | r # rs \<Rightarrow> Some (fold (\<lambda>x best. if log_id best < log_id x then x else best) rs r))"

text \<open>\<^verbatim>\<open>SELECT duration ... WHERE id < ? AND duration IS NOT NULL\<close>.\<close>

definition previous_durations :: "nat \<Rightarrow> log_row list \<Rightarrow> string list" where
  "previous_durations lid rows =
     concat (map (\<lambda>r. case duration r of None \<Rightarrow> [] | Some d \<Rightarrow> if log_id r < lid then [d] else []) rows)"

text \<open>The loop over \<open>previous_durations\<close>: a text that does not parse is skipped.\<close>

fun sum_previous :: "string list \<Rightarrow> int \<Rightarrow> int" where
  "sum_previous [] total_seconds = total_seconds"
| "sum_previous (dur # durs) total_seconds =
     (case hms_seconds dur of
        Some v \<Rightarrow> sum_previous durs (total_seconds + v)
      | None \<Rightarrow> sum_previous durs total_seconds)"

text \<open>\<^verbatim>\<open>UPDATE t SET end_time = ?, duration = ?, cumulative_time = ? WHERE id = ?\<close>.\<close>

definition close_row :: "nat \<Rightarrow> int \<Rightarrow> string \<Rightarrow> string \<Rightarrow> log_row list \<Rightarrow> log_row list" where
  "close_row lid end_s dur cum rows =
     map (\<lambda>r. if log_id r = lid
               then r\<lparr>end_time := Some end_s, duration := Some dur, cumulative_time := Some cum\<rparr>
               else r) rows"

text \<open>\<open>now_s\<close> and \<open>now_us\<close> are the seconds and the microseconds of \<^verbatim>\<open>datetime.now()\<close>.\<close>

definition stop_project :: "app \<Rightarrow> int \<Rightarrow> nat \<Rightarrow> outcome \<times> app" where
  "stop_project s now_s now_us =
     (if truthy_id (current_project_id s) \<and> truthy_str (current_project_table s) then
        (case current_project_table s of
           None \<Rightarrow> (Failed NoProjectRunning, s)
         | Some tn \<Rightarrow>
             (case lookup_table (tables s) tn of
                None \<Rightarrow> (Failed DatabaseError, s)
              | Some rows \<Rightarrow>
                  (case last_open rows of
                     None \<Rightarrow> (Failed NoActiveLog, s)
                   | Some log_entry \<Rightarrow>
                       let dur = timedelta_between (start_time log_entry) now_s now_us;
                           total_seconds = sum_previous (previous_durations (log_id log_entry) rows) 0;
                           new_cumulative_seconds = total_seconds + int_total_seconds dur
                       in (Done,
                           s\<lparr>tables := put_rows tn
                                (close_row (log_id log_entry) now_s (duration_str dur)
                                   (cumulative_str new_cumulative_seconds) rows) (tables s),
                             current_project_id := None,
                             current_project_table := None\<rparr>))))
      else (Failed NoProjectRunning, s))"

section \<open>TimeTrackerApp.check\_open\_projects\<close>

text \<open>The loop that collects, in registry order, every project whose table has an open
  row, together with the first such row (\<^verbatim>\<open>fetchone()\<close>).\<close>

fun scan_open :: "(string \<times> log_row list) list \<Rightarrow> project list \<Rightarrow> (project \<times> log_row) list
                    \<Rightarrow> error + (project \<times> log_row) list" where
  "scan_open tbls [] open_projects = Inr open_projects"
| "scan_open tbls (proj # projects) open_projects =
     (case lookup_table tbls (table_name proj) of
        None \<Rightarrow> Inl DatabaseError
      | Some rows \<Rightarrow>
          (case filter is_open rows of
             [] \<Rightarrow> scan_open tbls projects open_projects
           | open_log # _ \<Rightarrow> scan_open tbls projects (open_projects @ [(proj, open_log)])))"

definition check_open_projects :: "app \<Rightarrow> outcome \<times> app" where
  "check_open_projects s =
     (case scan_open (tables s) (projects_master s) [] of
        Inl e \<Rightarrow> (Failed e, s)
      | Inr open_projects \<Rightarrow>
          (case open_projects of
             [] \<Rightarrow> (Done, s)
           | (proj, open_log) # _ \<Rightarrow>
               if current_project_id s = None
               then (Done, s\<lparr>current_project_id := Some (proj_id proj),
                             current_project_table := Some (table_name proj)\<rparr>)
               else (Done, s)))"

section \<open>TimeTrackerApp.load\_projects: the project listing\<close>

text \<open>
  \<^verbatim>\<open>SELECT title FROM projects_master ORDER BY title ASC\<close>, the listing that
  \<^verbatim>\<open>load_projects\<close> and \<^verbatim>\<open>populate_filter_dropdown\<close> show. SQLite compares the texts
  code point by code point, a proper prefix coming first.
\<close>

fun text_le :: "string \<Rightarrow> string \<Rightarrow> bool" where
  "text_le [] b = True"
| "text_le (c # cs) [] = False"
| "text_le (c # cs) (d # ds) =
     ((of_char c :: nat) < of_char d \<or> (c = d \<and> text_le cs ds))"

fun insert_by_title :: "project \<Rightarrow> project list \<Rightarrow> project list" where
  "insert_by_title p [] = [p]"
| "insert_by_title p (q # qs) =
     (if text_le (title p) (title q) then p # q # qs else q # insert_by_title p qs)"

definition list_projects :: "app \<Rightarrow> project list" where
  "list_projects s = foldr insert_by_title (projects_master s) []"

section \<open>TimeTrackerApp.update\_total\_time\<close>

definition get_project_title :: "app \<Rightarrow> nat \<Rightarrow> string" where
  "get_project_title s pid =
     (case find (\<lambda>p. proj_id p = pid) (projects_master s) of None \<Rightarrow> [] | Some p \<Rightarrow> title p)"

text \<open>The loop over all registered table names, concatenating their duration columns.\<close>

fun all_durations :: "(string \<times> log_row list) list \<Rightarrow> string list \<Rightarrow> string option list
                        \<Rightarrow> error + string option list" where
  "all_durations tbls [] durations = Inr durations"
| "all_durations tbls (tn # tns) durations =
     (case lookup_table tbls tn of
        None \<Rightarrow> Inl DatabaseError
      | Some rows \<Rightarrow> all_durations tbls tns (durations @ map duration rows))"

text \<open>The summing loop: \<^verbatim>\<open>NULL\<close>, the empty text and "N/A" are passed over by the guard,
  a text that does not parse by the bare \<^verbatim>\<open>except\<close>.\<close>

fun sum_durations :: "string option list \<Rightarrow> int \<Rightarrow> int" where
  "sum_durations [] total_seconds = total_seconds"
| "sum_durations (dur # durs) total_seconds =
     (case dur of
        None \<Rightarrow> sum_durations durs total_seconds
      | Some d \<Rightarrow>
          if d \<noteq> [] \<and> d \<noteq> ''N/A'' then
            (case hms_seconds d of
               Some v \<Rightarrow> sum_durations durs (total_seconds + v)
             | None \<Rightarrow> sum_durations durs total_seconds)
          else sum_durations durs total_seconds)"

text \<open>The value of \<open>total_seconds\<close> when the label is written, or the database error
  that leaves the label as it was.\<close>

definition update_total_time :: "app \<Rightarrow> nat option \<Rightarrow> error + int" where
  "update_total_time s filter_project_id =
     (case (case (if truthy_id filter_project_id then filter_project_id else None) of
              Some pid \<Rightarrow>
                (case lookup_table (tables s) (sanitize_table_name (get_project_title s pid)) of
                   None \<Rightarrow> Inl DatabaseError
                 | Some rows \<Rightarrow> Inr (map duration rows))
            | None \<Rightarrow> all_durations (tables s) (map table_name (projects_master s)) [])
      of Inl e \<Rightarrow> Inl e
       | Inr durations \<Rightarrow> Inr (sum_durations durations 0))"

section \<open>Sequences of user actions\<close>

text \<open>A session is a sequence of handler calls on one application object; \<open>Startup\<close> is a
  new application object on the same store, whose constructor clears the running
  project and scans the store for an open row.\<close>

datatype action =
    StartProject string string int
  | StartRecording "string option" int
  | StopProject int nat
  | Startup

fun exec :: "action \<Rightarrow> app \<Rightarrow> app" where
  "exec (StartProject t d now) s = snd (start_project s t d now)"
| "exec (StartRecording sel now) s = snd (start_recording s sel now)"
| "exec (StopProject now_s now_us) s = snd (stop_project s now_s now_us)"
| "exec Startup s =
     snd (check_open_projects (s\<lparr>current_project_id := None, current_project_table := None\<rparr>))"

definition run :: "action list \<Rightarrow> app \<Rightarrow> app" where
  "run acts s = fold exec acts s"

section \<open>Notions of the specification\<close>

text \<open>A stored duration is malformed when the Duration Codec cannot parse it; an absent
  one (\<^verbatim>\<open>NULL\<close>) is treated alike.\<close>

definition malformed_duration :: "string option \<Rightarrow> bool" where
  "malformed_duration d = (case d of None \<Rightarrow> True | Some t \<Rightarrow> hms_seconds t = None)"

text \<open>What one stored duration contributes to a total: its seconds, or zero when it is
  malformed or absent.\<close>

definition contribution :: "string option \<Rightarrow> int" where
  "contribution d =
     (case d of None \<Rightarrow> 0 | Some t \<Rightarrow> (case hms_seconds t of None \<Rightarrow> 0 | Some v \<Rightarrow> v))"

text \<open>The single-open-interval invariant: no log table has two rows with a null
  \<open>end_time\<close>.\<close>

definition single_open :: "app \<Rightarrow> bool" where
  "single_open s =
     (\<forall>tn rows. lookup_table (tables s) tn = Some rows \<longrightarrow> length (filter is_open rows) \<le> 1)"

text \<open>The registry and the catalog agree: every project record has a positive id, the
  table identifier derived from its title and a log table that identifier resolves to;
  ids are unique; and no log table is without a project record that resolves to it.\<close>

definition registered :: "app \<Rightarrow> bool" where
  "registered s =
     ((\<forall>p \<in> set (projects_master s).
          proj_id p \<noteq> 0 \<and> title p \<noteq> [] \<and> table_name p = sanitize_table_name (title p) \<and>
          lookup_table (tables s) (table_name p) \<noteq> None) \<and>
      distinct (map proj_id (projects_master s)) \<and>
      (\<forall>tn. lookup_table (tables s) tn \<noteq> None \<longrightarrow>
            (\<exists>p \<in> set (projects_master s). table_key (table_name p) = table_key tn)))"

text \<open>The sum the specification asks for in \<open>cumulative_time\<close>: the contributions of the
  rows of smaller id that already have a duration.\<close>

definition prior_total :: "nat \<Rightarrow> log_row list \<Rightarrow> int" where
  "prior_total lid rows =
     sum_list (map (\<lambda>r. contribution (duration r))
                 (filter (\<lambda>r. log_id r < lid \<and> duration r \<noteq> None) rows))"

text \<open>A project has an open interval when its log table holds a row with a null
  \<open>end_time\<close>.\<close>

definition has_open_log :: "(string \<times> log_row list) list \<Rightarrow> project \<Rightarrow> bool" where
  "has_open_log tbls p =
     (case lookup_table tbls (table_name p) of None \<Rightarrow> False | Some rows \<Rightarrow> \<exists>r \<in> set rows. is_open r)"

section \<open>Numbers as text and back\<close>

lemma digit_of_digit_char: "n < 10 \<Longrightarrow> digit_of (digit_char n) = n"
  by (simp add: digit_of_def digit_char_def)

lemma is_digit_digit_char: "n < 10 \<Longrightarrow> is_digit (digit_char n)"
  by (simp add: is_digit_def digit_char_def)

lemma is_digit_not_special:
  "is_digit c \<Longrightarrow> c \<noteq> CHR '':'' \<and> c \<noteq> CHR ''.'' \<and> c \<noteq> CHR ''-'' \<and> c \<noteq> CHR ''+'' \<and> c \<noteq> CHR ''_'' \<and> \<not> is_space c"
  by (auto simp: is_digit_def is_space_def)

lemma show_nat_digits: "c \<in> set (show_nat n) \<Longrightarrow> is_digit c"
proof (induction n arbitrary: c rule: show_nat.induct)
  case (1 n)
  show ?case
  proof (cases "n < 10")
    case True
    with "1.prems" show ?thesis
      by (simp add: show_nat.simps [of n] is_digit_digit_char)
  next
    case False
    with "1.prems" "1.IH" show ?thesis
      by (auto simp: show_nat.simps [of n] is_digit_digit_char)
  qed
qed

lemma show_nat_nonempty: "show_nat n \<noteq> []"
  by (subst show_nat.simps) simp

lemma digits_val_snoc:
  "\<forall>c \<in> set ds. is_digit c \<Longrightarrow> is_digit d \<Longrightarrow>
   digits_val acc (ds @ [d]) = map_option (\<lambda>v. 10 * v + digit_of d) (digits_val acc ds)"
  by (induction ds arbitrary: acc) auto

lemma py_nat_snoc:
  "ds \<noteq> [] \<Longrightarrow> \<forall>c \<in> set ds. is_digit c \<Longrightarrow> is_digit d \<Longrightarrow>
   py_nat (ds @ [d]) = map_option (\<lambda>v. 10 * v + digit_of d) (py_nat ds)"
  by (cases ds) (auto simp: py_nat_def digits_val_snoc)

lemma py_nat_show_nat: "py_nat (show_nat n) = Some n"
proof (induction n rule: show_nat.induct)
  case (1 n)
  show ?case
  proof (cases "n < 10")
    case True
    then show ?thesis
      by (simp add: show_nat.simps [of n] py_nat_def is_digit_digit_char digit_of_digit_char)
  next
    case False
    then have "py_nat (show_nat (n div 10)) = Some (n div 10)" using "1.IH" by simp
    moreover have "n mod 10 < 10" by simp
    ultimately show ?thesis using False
      by (simp add: show_nat.simps [of n] py_nat_snoc show_nat_nonempty show_nat_digits
          is_digit_digit_char digit_of_digit_char)
  qed
qed

lemma strip_id: "s \<noteq> [] \<Longrightarrow> \<not> is_space (hd s) \<Longrightarrow> \<not> is_space (last s) \<Longrightarrow> strip s = s"
proof -
  assume a: "s \<noteq> []" "\<not> is_space (hd s)" "\<not> is_space (last s)"
  then have "dropWhile is_space s = s" by (cases s) auto
  moreover have "dropWhile is_space (rev s) = rev s" using a by (cases "rev s") (auto simp: last_rev hd_rev)
  ultimately show ?thesis by (simp add: strip_def)
qed

lemma py_int_digits:
  assumes "s \<noteq> []" "\<forall>c \<in> set s. is_digit c"
  shows "py_int s = map_option int (py_nat s)"
proof -
  have "is_digit (hd s)" "is_digit (last s)" using assms by auto
  then have "strip s = s" using assms(1) is_digit_not_special by (intro strip_id) auto
  moreover obtain c cs where "s = c # cs" using assms(1) by (cases s) auto
  ultimately show ?thesis using assms(2) is_digit_not_special [of c]
    by (auto simp: py_int_def)
qed

lemma py_int_show_int: "0 \<le> i \<Longrightarrow> py_int (show_int i) = Some i"
  by (simp add: show_int_def py_int_digits show_nat_nonempty show_nat_digits py_nat_show_nat)

lemma show_int_digits: "0 \<le> i \<Longrightarrow> c \<in> set (show_int i) \<Longrightarrow> is_digit c"
  by (auto simp: show_int_def dest: show_nat_digits)

lemma show_int_nonempty: "show_int i \<noteq> []"
  by (simp add: show_int_def show_nat_nonempty)

lemma is_digit_zero: "is_digit CHR ''0''"
  by (simp add: is_digit_def)

lemma pad2_digits: "0 \<le> i \<Longrightarrow> c \<in> set (pad2 i) \<Longrightarrow> is_digit c"
  using show_int_digits [of i c] by (cases "i < 10") (auto simp: pad2_def is_digit_zero)

lemma pad2_nonempty: "pad2 i \<noteq> []"
  by (simp add: pad2_def show_int_nonempty)

lemma py_int_pad2: "0 \<le> i \<Longrightarrow> py_int (pad2 i) = Some i"
proof (cases "i < 10")
  case True
  assume "0 \<le> i"
  with True have n: "nat i < 10" by simp
  have "show_int i = [digit_char (nat i)]" using \<open>0 \<le> i\<close> n
    by (simp add: show_int_def show_nat.simps [of "nat i"])
  then have p: "pad2 i = [CHR ''0'', digit_char (nat i)]" using True \<open>0 \<le> i\<close>
    by (simp add: pad2_def)
  have "py_int (pad2 i) = map_option int (py_nat (pad2 i))"
    unfolding p by (rule py_int_digits) (auto simp: is_digit_zero is_digit_digit_char n)
  also have "py_nat (pad2 i) = Some (nat i)"
    using digit_of_digit_char [OF n]
    by (simp add: p py_nat_def is_digit_zero is_digit_digit_char n) (simp add: digit_of_def)
  finally show ?thesis using \<open>0 \<le> i\<close> by simp
next
  case False
  assume "0 \<le> i"
  then show ?thesis using False by (simp add: pad2_def py_int_show_int)
qed

lemma py_split_none: "sep \<notin> set a \<Longrightarrow> py_split sep a = [a]"
  by (induction a) auto

lemma py_split_app: "sep \<notin> set a \<Longrightarrow> py_split sep (a @ sep # b) = a # py_split sep b"
  by (induction a) auto

section \<open>Parsing and rendering durations\<close>

lemma digits_val_alphabet:
  "digits_val acc t = Some v \<Longrightarrow> c \<in> set t \<Longrightarrow> is_digit c \<or> c = CHR ''_''"
  by (induction acc t rule: digits_val.induct) (auto split: if_splits list.splits)

lemma py_nat_alphabet:
  "py_nat t = Some v \<Longrightarrow> c \<in> set t \<Longrightarrow> is_digit c \<or> c = CHR ''_''"
  by (cases t) (auto simp: py_nat_def split: if_splits dest: digits_val_alphabet)

lemma set_dropWhile_cases: "c \<in> set s \<Longrightarrow> P c \<or> c \<in> set (dropWhile P s)"
  by (induction s) auto

lemma set_strip_cases: "c \<in> set s \<Longrightarrow> is_space c \<or> c \<in> set (strip s)"
proof -
  assume "c \<in> set s"
  then have "is_space c \<or> c \<in> set (rev (dropWhile is_space s))"
    using set_dropWhile_cases [of c s is_space] by simp
  then show ?thesis
    using set_dropWhile_cases [of c "rev (dropWhile is_space s)" is_space]
    by (auto simp: strip_def)
qed

lemma py_int_alphabet:
  assumes "py_int s = Some v" "c \<in> set s"
  shows "is_space c \<or> is_digit c \<or> c = CHR ''_'' \<or> c = CHR ''+'' \<or> c = CHR ''-''"
proof (cases "is_space c")
  case True
  then show ?thesis by simp
next
  case False
  then have c: "c \<in> set (strip s)" using assms(2) set_strip_cases by blast
  then obtain x xs where x: "strip s = x # xs" by (cases "strip s") auto
  show ?thesis
  proof (cases "c = x")
    case True
    with assms(1) x show ?thesis
      by (auto simp: py_int_def py_nat_def split: if_splits)
  next
    case False
    with c x have "c \<in> set xs" by simp
    with assms(1) x show ?thesis
      by (auto simp: py_int_def split: if_splits dest: py_nat_alphabet)
  qed
qed

lemma py_int_letter: "CHR ''d'' \<in> set s \<Longrightarrow> py_int s = None"
proof (rule ccontr)
  assume d: "CHR ''d'' \<in> set s" and "py_int s \<noteq> None"
  then obtain v where "py_int s = Some v" by auto
  from py_int_alphabet [OF this d] show False
    by (simp add: is_space_def is_digit_def)
qed

lemma show_int_no_sep: "CHR '':'' \<notin> set (show_int i) \<and> CHR ''.'' \<notin> set (show_int i)"
  using is_digit_not_special by (auto simp: show_int_def dest!: show_nat_digits)

lemma pad2_no_sep: "CHR '':'' \<notin> set (pad2 i) \<and> CHR ''.'' \<notin> set (pad2 i)"
  using show_int_no_sep [of i] by (simp add: pad2_def)

lemma hms_text_no_dot: "CHR ''.'' \<notin> set (hms_text h m s)"
  using show_int_no_sep [of h] pad2_no_sep [of m] pad2_no_sep [of s]
  by (simp add: hms_text_def)

lemma days_text_no_sep: "CHR ''.'' \<notin> set (days_text d) \<and> CHR '':'' \<notin> set (days_text d)"
  using show_int_no_sep [of d] by (simp add: days_text_def)

lemma py_split_hms: "py_split CHR '':'' (pre @ hms_text h m s) = [pre @ show_int h, pad2 m, pad2 s]"
  if "CHR '':'' \<notin> set pre"
proof -
  have a: "CHR '':'' \<notin> set (pre @ show_int h)" using that show_int_no_sep [of h] by simp
  have "pre @ hms_text h m s = (pre @ show_int h) @ CHR '':'' # (pad2 m @ CHR '':'' # pad2 s)"
    by (simp add: hms_text_def)
  then show ?thesis
    using pad2_no_sep [of m] pad2_no_sep [of s]
    by (simp only: py_split_app [OF a]) (simp add: py_split_app py_split_none)
qed

lemma hms_seconds_hms:
  assumes "0 \<le> h" "0 \<le> m" "0 \<le> s"
  shows "hms_seconds (hms_text h m s) = Some (h * 3600 + m * 60 + s)"
  using py_split_hms [of "[]" h m s] assms
  by (simp add: hms_seconds_def py_int_show_int py_int_pad2)

lemma hms_seconds_days: "hms_seconds (days_text d @ hms_text h m s) = None"
proof -
  have "py_int (days_text d @ show_int h) = None"
    by (rule py_int_letter) (simp add: days_text_def)
  then show ?thesis
    using py_split_hms [of "days_text d" h m s] days_text_no_sep [of d]
    by (simp add: hms_seconds_def)
qed

text \<open>The text written for an elapsed time, whatever the microseconds.\<close>

lemma duration_str_eq:
  "duration_str td =
     (if days td \<noteq> 0 then days_text (days td) else []) @
     hms_text (seconds td div 60 div 60) (seconds td div 60 mod 60) (seconds td mod 60)"
proof -
  let ?s = "(if days td \<noteq> 0 then days_text (days td) else []) @
     hms_text (seconds td div 60 div 60) (seconds td div 60 mod 60) (seconds td mod 60)"
  have nodot: "CHR ''.'' \<notin> set ?s"
    using hms_text_no_dot days_text_no_sep by simp
  have "timedelta_str td = ?s @ (if microseconds td \<noteq> 0 then CHR ''.'' # pad6 (microseconds td) else [])"
    by (simp add: timedelta_str_def Let_def hms_text_def days_text_def)
  then have "py_split CHR ''.'' (timedelta_str td) =
      (if microseconds td \<noteq> 0 then ?s # py_split CHR ''.'' (pad6 (microseconds td)) else [?s])"
    using py_split_app [OF nodot] py_split_none [OF nodot] by simp
  then show ?thesis by (simp add: duration_str_def)
qed

lemma duration_str_short:
  assumes "0 \<le> now - st" "now - st < 86400"
  shows "duration_str (timedelta_between st now us) =
           hms_text ((now - st) div 60 div 60) ((now - st) div 60 mod 60) ((now - st) mod 60)"
proof -
  have "(now - st) div 86400 = 0" "(now - st) mod 86400 = now - st" using assms by simp_all
  then have "days (timedelta_between st now us) = 0" "seconds (timedelta_between st now us) = now - st"
    by (simp_all add: timedelta_between_def)
  then show ?thesis by (simp only: duration_str_eq) simp
qed

lemma hms_seconds_duration_short:
  assumes "0 \<le> now - st" "now - st < 86400"
  shows "hms_seconds (duration_str (timedelta_between st now us)) = Some (now - st)"
proof -
  let ?e = "now - st"
  have nn: "0 \<le> ?e div 60 div 60" "0 \<le> ?e div 60 mod 60" "0 \<le> ?e mod 60"
    using assms by simp_all
  have "?e div 60 div 60 * 3600 + ?e div 60 mod 60 * 60 + ?e mod 60 = ?e"
    by presburger
  then show ?thesis
    by (simp only: duration_str_short [OF assms] hms_seconds_hms [OF nn])
qed

lemma duration_str_long:
  assumes "86400 \<le> now - st"
  shows "duration_str (timedelta_between st now us) =
           days_text ((now - st) div 86400) @
           hms_text ((now - st) mod 86400 div 60 div 60) ((now - st) mod 86400 div 60 mod 60)
                    ((now - st) mod 86400 mod 60)"
proof -
  have "(now - st) div 86400 \<noteq> 0" using assms by simp
  then have "days (timedelta_between st now us) = (now - st) div 86400"
     "days (timedelta_between st now us) \<noteq> 0"
     "seconds (timedelta_between st now us) = (now - st) mod 86400"
    by (simp_all add: timedelta_between_def)
  then show ?thesis by (simp only: duration_str_eq not_False_eq_True if_True)
qed

lemma hms_seconds_duration_long:
  assumes "86400 \<le> now - st"
  shows "hms_seconds (duration_str (timedelta_between st now us)) = None"
  by (simp only: duration_str_long [OF assms] hms_seconds_days)

lemma int_total_seconds_between:
  "int_total_seconds (timedelta_between st now us) =
     (if now - st < 0 \<and> 0 < us then now - st + 1 else now - st)"
  by (simp add: int_total_seconds_def timedelta_between_def Let_def)

section \<open>The summing loops\<close>

lemma hms_seconds_guarded: "hms_seconds [] = None" "hms_seconds ''N/A'' = None"
  by (simp_all add: hms_seconds_def py_int_def strip_def py_nat_def is_space_def is_digit_def)

lemma sum_durations_contribution:
  "sum_durations ds acc = acc + sum_list (map contribution ds)"
proof (induction ds arbitrary: acc)
  case Nil
  show ?case by simp
next
  case (Cons d ds)
  show ?case
  proof (cases d)
    case None
    then show ?thesis by (simp add: Cons.IH contribution_def)
  next
    case (Some t)
    then show ?thesis
      using hms_seconds_guarded
      by (cases "hms_seconds t") (auto simp: Cons.IH contribution_def)
  qed
qed

lemma sum_previous_contribution:
  "sum_previous ds acc = acc + sum_list (map (\<lambda>d. contribution (Some d)) ds)"
  by (induction ds arbitrary: acc) (auto simp: contribution_def split: option.splits)

lemma contribution_malformed: "malformed_duration d \<Longrightarrow> contribution d = 0"
  by (auto simp: malformed_duration_def contribution_def split: option.splits)

section \<open>C5: a malformed duration row does not disturb the total\<close>

text \<open>
  C5. Total-time aggregation over a sequence of stored durations that contains a
  malformed entry (the text "N/A" is one) yields a total, and the total is that of the
  sequence without the entry: the summing loop of \<open>update_total_time\<close> passes the entry
  over, and with a project filter \<open>update_total_time\<close> returns the total of the other rows.
\<close>

theorem malformed_row_skipped:
  assumes "malformed_duration d"
  shows "malformed_duration (Some ''N/A'') \<and>
         sum_durations (xs @ d # ys) acc = sum_durations (xs @ ys) acc \<and>
         (truthy_id (Some pid) \<and>
          lookup_table (tables s) (sanitize_table_name (get_project_title s pid)) = Some rows \<and>
          map duration rows = xs @ d # ys \<longrightarrow>
          update_total_time s (Some pid) = Inr (sum_durations (xs @ ys) 0))"
proof -
  have a: "sum_durations (xs @ d # ys) acc = sum_durations (xs @ ys) acc" for acc
    using assms by (simp add: sum_durations_contribution contribution_malformed)
  have "malformed_duration (Some ''N/A'')"
    by (simp add: malformed_duration_def hms_seconds_guarded)
  then show ?thesis using a [of acc] a [of 0]
    by (simp add: update_total_time_def)
qed

theorem malformed_row_skipped_witness:
  "malformed_duration (Some ''N/A'') \<and>
   sum_durations [Some ''0:02:05'', Some ''N/A'', Some ''0:01:00''] 0 = 185 \<and>
   sum_durations [Some ''0:02:05'', Some ''0:01:00''] 0 = 185"
proof -
  have m: "malformed_duration (Some ''N/A'')" by code_simp
  have "sum_durations [Some ''0:02:05'', Some ''0:01:00''] 0 = 185" by code_simp
  with malformed_row_skipped [OF m, of "[Some ''0:02:05'']" "[Some ''0:01:00'']" 0] m
  show ?thesis by simp
qed

section \<open>The catalog of tables\<close>

lemma lookup_put_rows:
  "lookup_table (put_rows tn rows tbls) k =
     (if table_key k = table_key tn then map_option (\<lambda>_. rows) (lookup_table tbls tn)
      else lookup_table tbls k)"
  by (induction tbls) (auto simp: put_rows_def lookup_table_def)

lemma lookup_create_table:
  "lookup_table (create_table tn tbls) k =
     (if table_key k = table_key tn \<and> lookup_table tbls tn = None then Some []
      else lookup_table tbls k)"
  by (auto simp: create_table_def lookup_table_def map_add_def split: option.splits)

lemma create_table_existing: "lookup_table tbls tn = Some rows \<Longrightarrow> create_table tn tbls = tbls"
  by (simp add: create_table_def)

lemma put_rows_twice: "put_rows tn r2 (put_rows tn r1 tbls) = put_rows tn r2 tbls"
  by (induction tbls) (auto simp: put_rows_def)

lemma fold_max_ge: "(a::nat) \<le> fold max ids a \<and> (\<forall>x \<in> set ids. x \<le> fold max ids a)"
proof (induction ids arbitrary: a)
  case Nil
  show ?case by simp
next
  case (Cons i ids)
  from Cons.IH [of "max i a"] show ?case by auto
qed

lemma next_id_greater: "x \<in> set ids \<Longrightarrow> x < next_id ids"
  using fold_max_ge [of 0 ids] by (auto simp: next_id_def)

lemma next_id_pos: "next_id ids \<noteq> 0"
  by (simp add: next_id_def)

lemma next_id_fresh: "next_id ids \<notin> set ids"
  using next_id_greater [of "next_id ids" ids] by auto

section \<open>Rows\<close>

lemma filter_open_insert_log:
  "filter is_open (insert_log now rows) =
     filter is_open rows @ [\<lparr>log_id = next_id (map log_id rows), start_time = now, end_time = None,
                              duration = None, cumulative_time = None\<rparr>]"
  by (simp add: insert_log_def is_open_def)

lemma filter_open_close_row:
  "length (filter is_open (close_row lid e d c rows)) \<le> length (filter is_open rows)"
  by (induction rows) (auto simp: close_row_def is_open_def)

lemma sanitize_nonempty: "sanitize_table_name t \<noteq> []"
  by (simp add: sanitize_table_name_def)

section \<open>Registry and catalog agree after every handler\<close>

lemma registered_init: "registered init_app"
  by (simp add: registered_def init_app_def lookup_table_def)

lemma registered_slot:
  "registered (s\<lparr>current_project_id := a, current_project_table := b\<rparr>) = registered s"
  by (simp add: registered_def)

lemma lookup_same_key: "table_key k = table_key tn \<Longrightarrow> lookup_table tbls k = lookup_table tbls tn"
  by (simp add: lookup_table_def)

lemma lookup_put_rows_known:
  "(lookup_table (put_rows tn rows tbls) k \<noteq> None) = (lookup_table tbls k \<noteq> None)"
  using lookup_same_key [of k tn tbls] by (auto simp: lookup_put_rows)

lemma registered_put_rows:
  assumes "registered s"
  shows "registered (s\<lparr>tables := put_rows tn rows' (tables s)\<rparr>)"
proof -
  let ?s' = "s\<lparr>tables := put_rows tn rows' (tables s)\<rparr>"
  have m: "projects_master ?s' = projects_master s" and t: "tables ?s' = put_rows tn rows' (tables s)"
    by simp_all
  show ?thesis
    using assms unfolding registered_def m t lookup_put_rows_known by blast
qed

lemma start_recording_registered: "registered s \<Longrightarrow> registered (snd (start_recording s sel now))"
proof -
  assume ok: "registered s"
  have *: "registered (s\<lparr>tables := put_rows tn rows' (tables s),
                          current_project_id := a, current_project_table := b\<rparr>)" for tn rows' a b
    using registered_put_rows [OF ok, of tn rows'] by (simp only: registered_slot)
  show ?thesis using ok *
    by (auto simp: start_recording_def split: option.splits)
qed

lemma stop_project_registered: "registered s \<Longrightarrow> registered (snd (stop_project s now_s now_us))"
proof -
  assume ok: "registered s"
  have *: "registered (s\<lparr>tables := put_rows tn rows' (tables s),
                          current_project_id := a, current_project_table := b\<rparr>)" for tn rows' a b
    using registered_put_rows [OF ok, of tn rows'] by (simp only: registered_slot)
  show ?thesis using ok *
    by (auto simp: stop_project_def Let_def split: option.splits)
qed

lemma check_open_projects_registered: "registered s \<Longrightarrow> registered (snd (check_open_projects s))"
  by (auto simp: check_open_projects_def registered_def split: sum.splits list.splits)

section \<open>The single open row under start and stop\<close>

lemma single_open_put_rows:
  assumes "single_open s" "length (filter is_open rows') \<le> 1"
  shows "single_open (s\<lparr>tables := put_rows tn rows' (tables s)\<rparr>)"
  using assms by (auto simp: single_open_def lookup_put_rows split: if_splits)

lemma start_recording_single_open:
  "single_open s \<Longrightarrow> single_open (snd (start_recording s sel now))"
proof -
  assume ok: "single_open s"
  have *: "single_open (s\<lparr>tables := put_rows tn (insert_log now rows) (tables s),
                           current_project_id := a, current_project_table := b\<rparr>)"
    if "filter is_open rows = []" for tn rows a b
  proof -
    have "single_open (s\<lparr>tables := put_rows tn (insert_log now rows) (tables s)\<rparr>)"
      using ok that by (intro single_open_put_rows) (simp_all add: filter_open_insert_log)
    then show ?thesis by (simp add: single_open_def)
  qed
  show ?thesis using ok *
    by (auto simp: start_recording_def split: option.splits)
qed

lemma stop_project_single_open:
  "single_open s \<Longrightarrow> single_open (snd (stop_project s now_s now_us))"
proof -
  assume ok: "single_open s"
  have *: "single_open (s\<lparr>tables := put_rows tn (close_row lid e d c rows) (tables s),
                           current_project_id := a, current_project_table := b\<rparr>)"
    if "lookup_table (tables s) tn = Some rows" for tn rows a b lid e d c
  proof -
    have "length (filter is_open rows) \<le> 1" using ok that by (auto simp: single_open_def)
    then have "length (filter is_open (close_row lid e d c rows)) \<le> 1"
      using filter_open_close_row [of lid e d c rows] by simp
    then have "single_open (s\<lparr>tables := put_rows tn (close_row lid e d c rows) (tables s)\<rparr>)"
      using ok by (intro single_open_put_rows)
    then show ?thesis by (simp add: single_open_def)
  qed
  show ?thesis using ok *
    by (auto simp: stop_project_def Let_def split: option.splits)
qed

lemma check_open_projects_single_open:
  "single_open s \<Longrightarrow> single_open (snd (check_open_projects s))"
  by (auto simp: check_open_projects_def single_open_def split: sum.splits list.splits)

section \<open>start\_project on a store whose registry and catalog agree\<close>

lemma registered_table_known:
  "registered s \<Longrightarrow> p \<in> set (projects_master s) \<Longrightarrow> \<exists>rows. lookup_table (tables s) (table_name p) = Some rows"
  by (auto simp: registered_def)

lemma started_rows:
  "lookup_table (create_table tn tbls) tn =
     Some (case lookup_table tbls tn of None \<Rightarrow> [] | Some rows \<Rightarrow> rows)"
  by (cases "lookup_table tbls tn") (simp_all add: lookup_create_table)

lemma start_project_rejected:
  assumes "registered s" "fst (start_project s t d now) \<noteq> Done"
  shows "snd (start_project s t d now) = s"
proof (cases "t = [] \<or> (\<exists>p \<in> set (projects_master s). title p = t)")
  case True
  then show ?thesis by (auto simp: start_project_def)
next
  case False
  let ?tn = "sanitize_table_name t"
  show ?thesis
  proof (cases "\<exists>p \<in> set (projects_master s). table_name p = ?tn")
    case True
    then obtain rows where "lookup_table (tables s) ?tn = Some rows"
      using registered_table_known [OF assms(1)] by metis
    then have "create_table ?tn (tables s) = tables s" by (rule create_table_existing)
    then show ?thesis using False True by (simp add: start_project_def Let_def)
  next
    case nocoll: False
    have "fst (start_project s t d now) = Done"
      using False nocoll by (simp add: start_project_def Let_def started_rows)
    with assms(2) show ?thesis by simp
  qed
qed

text \<open>The state after a creation that completes. The new project's table is a new, empty
  one unless its name resolves to a table that is already there.\<close>

lemma start_project_accepted:
  assumes "t \<noteq> []" "\<forall>p \<in> set (projects_master s). title p \<noteq> t"
    "\<forall>p \<in> set (projects_master s). table_name p \<noteq> sanitize_table_name t"
  shows "start_project s t d now =
     (Done, s\<lparr>projects_master := projects_master s @
                 [\<lparr>proj_id = next_id (map proj_id (projects_master s)), title = t, details = d,
                   table_name = sanitize_table_name t\<rparr>],
               tables := put_rows (sanitize_table_name t)
                           (insert_log now (case lookup_table (tables s) (sanitize_table_name t) of
                                              None \<Rightarrow> [] | Some rows \<Rightarrow> rows))
                           (create_table (sanitize_table_name t) (tables s)),
               current_project_id := Some (next_id (map proj_id (projects_master s))),
               current_project_table := Some (sanitize_table_name t)\<rparr>)"
  using assms by (simp add: start_project_def Let_def started_rows)

lemma start_project_done:
  assumes "fst (start_project s t d now) = Done"
  shows "t \<noteq> []" "\<forall>p \<in> set (projects_master s). title p \<noteq> t"
    "\<forall>p \<in> set (projects_master s). table_name p \<noteq> sanitize_table_name t"
proof -
  show t: "t \<noteq> []" "\<forall>p \<in> set (projects_master s). title p \<noteq> t"
    using assms by (auto simp: start_project_def split: if_splits)
  show "\<forall>p \<in> set (projects_master s). table_name p \<noteq> sanitize_table_name t"
  proof (rule ccontr)
    assume "\<not> ?thesis"
    then have "\<exists>p \<in> set (projects_master s). table_name p = sanitize_table_name t" by blast
    then have "fst (start_project s t d now) = Failed IntegrityError"
      using t by (simp add: start_project_def Let_def)
    with assms show False by simp
  qed
qed

lemma lookup_started:
  "lookup_table (put_rows tn rows (create_table tn tbls)) k =
     (if table_key k = table_key tn then Some rows else lookup_table tbls k)"
  by (simp add: lookup_put_rows started_rows lookup_create_table)

lemma start_project_registered:
  assumes reg: "registered s"
  shows "registered (snd (start_project s t d now))"
proof (cases "fst (start_project s t d now) = Done")
  case False
  then show ?thesis using assms start_project_rejected [of s t d now] by simp
next
  case True
  let ?tn = "sanitize_table_name t"
  note facts = start_project_done [OF True]
  let ?rows = "insert_log now (case lookup_table (tables s) ?tn of None \<Rightarrow> [] | Some rows \<Rightarrow> rows)"
  let ?tbls = "put_rows ?tn ?rows (create_table ?tn (tables s))"
  note look = lookup_started [of ?tn ?rows "tables s"]
  let ?new = "\<lparr>proj_id = next_id (map proj_id (projects_master s)), title = t, details = d,
                   table_name = ?tn\<rparr>"
  let ?s' = "s\<lparr>projects_master := projects_master s @ [?new], tables := ?tbls,
               current_project_id := Some (next_id (map proj_id (projects_master s))),
               current_project_table := Some ?tn\<rparr>"
  have eq: "snd (start_project s t d now) = ?s'"
    using start_project_accepted [OF facts] by simp
  have "registered ?s'"
    unfolding registered_def
  proof (intro conjI ballI allI impI)
    fix p assume p: "p \<in> set (projects_master ?s')"
    then consider "p = ?new" | "p \<in> set (projects_master s)" by auto
    then show "proj_id p \<noteq> 0" using reg next_id_pos by cases (auto simp: registered_def)
    from p consider "p = ?new" | "p \<in> set (projects_master s)" by auto
    then show "title p \<noteq> []" using reg facts(1) by cases (auto simp: registered_def)
    from p consider "p = ?new" | "p \<in> set (projects_master s)" by auto
    then show "table_name p = sanitize_table_name (title p)" using reg by cases (auto simp: registered_def)
    from p consider "p = ?new" | "p \<in> set (projects_master s)" by auto
    then show "lookup_table (tables ?s') (table_name p) \<noteq> None"
    proof cases
      case 1
      then show ?thesis by (simp add: look)
    next
      case 2
      then have "lookup_table (tables s) (table_name p) \<noteq> None"
        using reg unfolding registered_def by blast
      then show ?thesis by (simp add: look)
    qed
  next
    show "distinct (map proj_id (projects_master ?s'))"
      using reg next_id_fresh [of "map proj_id (projects_master s)"] by (simp add: registered_def)
  next
    fix k assume k: "lookup_table (tables ?s') k \<noteq> None"
    show "\<exists>p \<in> set (projects_master ?s'). table_key (table_name p) = table_key k"
    proof (cases "table_key k = table_key ?tn")
      case True
      then show ?thesis by simp
    next
      case False
      with k have "lookup_table (tables s) k \<noteq> None" by (simp add: look)
      then obtain p where "p \<in> set (projects_master s)" "table_key (table_name p) = table_key k"
        using reg unfolding registered_def by blast
      then show ?thesis by auto
    qed
  qed
  then show ?thesis by (simp only: eq)
qed

lemma exec_registered: "registered s \<Longrightarrow> registered (exec a s)"
proof (cases a)
  case (StartProject t d now)
  assume "registered s"
  then show ?thesis using StartProject by (simp add: start_project_registered)
next
  case (StartRecording sel now)
  assume "registered s"
  then show ?thesis using StartRecording by (simp add: start_recording_registered)
next
  case (StopProject now_s now_us)
  assume "registered s"
  then show ?thesis using StopProject by (simp add: stop_project_registered)
next
  case Startup
  assume "registered s"
  then have "registered (s\<lparr>current_project_id := None, current_project_table := None\<rparr>)"
    by (simp only: registered_slot)
  then show ?thesis using Startup by (simp add: check_open_projects_registered)
qed

lemma run_registered: "registered s \<Longrightarrow> registered (run acts s)"
  unfolding run_def by (induction acts arbitrary: s) (simp_all add: exec_registered)

lemma reachable_registered: "registered (run acts init_app)"
  by (rule run_registered [OF registered_init])

text \<open>A creation keeps the single open row when the new name resolves to no table that
  is already there.\<close>

lemma start_project_single_open:
  assumes "single_open s" "lookup_table (tables s) (sanitize_table_name t) = None"
  shows "single_open (snd (start_project s t d now))"
proof (cases "fst (start_project s t d now) = Done")
  case True
  let ?tn = "sanitize_table_name t"
  have "tables (snd (start_project s t d now)) =
          put_rows ?tn (insert_log now []) (create_table ?tn (tables s))"
    using start_project_accepted [OF start_project_done [OF True]] assms(2) by simp
  moreover have "length (filter is_open (insert_log now [])) \<le> 1"
    by (simp add: insert_log_def)
  ultimately show ?thesis
    using assms(1) by (auto simp: single_open_def lookup_started split: if_splits)
next
  case False
  have "tables (snd (start_project s t d now)) = tables s \<or>
        tables (snd (start_project s t d now)) = create_table (sanitize_table_name t) (tables s)"
    using False by (auto simp: start_project_def Let_def split: if_splits option.splits)
  then show ?thesis
    using assms(1) by (auto simp: single_open_def lookup_create_table split: if_splits)
qed

section \<open>stop\_project on a running interval\<close>

lemma sum_previous_prior_total:
  "sum_previous (previous_durations lid rows) 0 = prior_total lid rows"
proof -
  have "map (\<lambda>d. contribution (Some d)) (previous_durations lid rows) =
        map (\<lambda>r. contribution (duration r)) (filter (\<lambda>r. log_id r < lid \<and> duration r \<noteq> None) rows)"
    by (induction rows) (auto simp: previous_durations_def split: option.splits)
  then show ?thesis by (simp add: sum_previous_contribution prior_total_def)
qed

lemma stop_project_running:
  assumes "current_project_id s = Some pid" "pid \<noteq> 0"
    "current_project_table s = Some tn" "tn \<noteq> []"
    "lookup_table (tables s) tn = Some rows" "last_open rows = Some e"
  shows "stop_project s now_s now_us =
     (Done, s\<lparr>tables := put_rows tn
                 (close_row (log_id e) now_s
                    (duration_str (timedelta_between (start_time e) now_s now_us))
                    (cumulative_str (prior_total (log_id e) rows +
                        int_total_seconds (timedelta_between (start_time e) now_s now_us)))
                    rows) (tables s),
               current_project_id := None, current_project_table := None\<rparr>)"
  using assms
  by (simp add: stop_project_def truthy_id_def truthy_str_def Let_def sum_previous_prior_total)

lemma prior_total_all:
  "\<forall>r \<in> set rows. log_id r < lid \<Longrightarrow>
   prior_total lid rows = sum_list (map (\<lambda>r. contribution (duration r)) rows)"
proof (induction rows)
  case Nil
  show ?case by (simp add: prior_total_def)
next
  case (Cons r rows)
  then have "prior_total lid rows = sum_list (map (\<lambda>r. contribution (duration r)) rows)" by simp
  moreover have "prior_total lid (r # rows) = contribution (duration r) + prior_total lid rows"
    using Cons.prems by (cases "duration r") (simp_all add: prior_total_def contribution_def)
  ultimately show ?case by simp
qed

lemma close_row_other: "\<forall>r \<in> set rows. log_id r \<noteq> lid \<Longrightarrow> close_row lid e d c rows = rows"
  by (induction rows) (auto simp: close_row_def)

text \<open>One start/stop cycle on an idle project, whatever the running-project slot held.\<close>

lemma cycle:
  assumes t: "t \<noteq> ''No available projects to track.''"
    and p: "find (\<lambda>p. title p = t) (projects_master s) = Some p" "proj_id p \<noteq> 0" "table_name p \<noteq> []"
    and rows: "lookup_table (tables s) (table_name p) = Some rows" "filter is_open rows = []"
    and d: "0 \<le> d"
  shows "run [StartRecording (Some t) T, StopProject (T + d) us] s =
     s\<lparr>tables := put_rows (table_name p)
          (rows @ [\<lparr>log_id = next_id (map log_id rows), start_time = T, end_time = Some (T + d),
                     duration = Some (duration_str (timedelta_between T (T + d) us)),
                     cumulative_time = Some (cumulative_str
                        (sum_list (map (\<lambda>r. contribution (duration r)) rows) + d))\<rparr>])
          (tables s),
        current_project_id := None, current_project_table := None\<rparr>"
proof -
  let ?tn = "table_name p"
  let ?new = "\<lparr>log_id = next_id (map log_id rows), start_time = T, end_time = None,
               duration = None, cumulative_time = None\<rparr>"
  let ?s1 = "s\<lparr>tables := put_rows ?tn (insert_log T rows) (tables s),
               current_project_id := Some (proj_id p), current_project_table := Some ?tn\<rparr>"
  have s1: "start_recording s (Some t) T = (Done, ?s1)"
    using t p rows by (simp add: start_recording_def)
  have ins: "insert_log T rows = rows @ [?new]" by (simp add: insert_log_def)
  have lo: "last_open (insert_log T rows) = Some ?new"
    using rows(2) by (simp add: last_open_def ins is_open_def)
  have m1: "lookup_table (tables ?s1) ?tn = Some (insert_log T rows)"
    using rows(1) by (simp add: lookup_put_rows)
  have less: "\<forall>r \<in> set rows. log_id r < next_id (map log_id rows)"
    by (auto intro: next_id_greater)
  have pt: "prior_total (next_id (map log_id rows)) (insert_log T rows) = sum_list (map (\<lambda>r. contribution (duration r)) rows)"
    using less prior_total_all [of rows "next_id (map log_id rows)"]
    by (simp add: ins prior_total_def)
  have its: "int_total_seconds (timedelta_between T (T + d) us) = d"
    using d by (simp add: int_total_seconds_between)
  have "\<forall>r \<in> set rows. log_id r \<noteq> next_id (map log_id rows)" using less by auto
  then have cr: "close_row (next_id (map log_id rows)) e' dd c (insert_log T rows) =
        rows @ [?new\<lparr>end_time := Some e', duration := Some dd, cumulative_time := Some c\<rparr>]" for e' dd c
    using close_row_other [of rows "next_id (map log_id rows)" e' dd c]
    by (simp add: ins) (simp add: close_row_def)
  have "stop_project ?s1 (T + d) us =
     (Done, ?s1\<lparr>tables := put_rows ?tn
                 (close_row (log_id ?new) (T + d)
                    (duration_str (timedelta_between (start_time ?new) (T + d) us))
                    (cumulative_str (prior_total (log_id ?new) (insert_log T rows) +
                        int_total_seconds (timedelta_between (start_time ?new) (T + d) us)))
                    (insert_log T rows)) (tables ?s1),
               current_project_id := None, current_project_table := None\<rparr>)"
    by (rule stop_project_running [OF _ p(2) _ p(3) m1 lo]) simp_all
  then have "snd (stop_project ?s1 (T + d) us) =
      s\<lparr>tables := put_rows ?tn
          (rows @ [\<lparr>log_id = next_id (map log_id rows), start_time = T, end_time = Some (T + d),
                     duration = Some (duration_str (timedelta_between T (T + d) us)),
                     cumulative_time = Some (cumulative_str
                        (sum_list (map (\<lambda>r. contribution (duration r)) rows) + d))\<rparr>])
          (tables s),
        current_project_id := None, current_project_table := None\<rparr>"
    by (simp add: pt its cr put_rows_twice)
  then show ?thesis using s1 by (simp add: run_def)
qed

lemma contribution_short:
  "0 \<le> d \<Longrightarrow> d < 86400 \<Longrightarrow> contribution (Some (duration_str (timedelta_between T (T + d) us))) = d"
proof -
  assume "0 \<le> d" "d < 86400"
  then have "0 \<le> (T + d) - T" "(T + d) - T < 86400" by simp_all
  from hms_seconds_duration_short [OF this]
  show ?thesis by (simp add: contribution_def)
qed

section \<open>C1: the cumulative time written by a stop\<close>

text \<open>
  C1, as the code has it. A stop of a running interval writes as \<open>cumulative_time\<close> the
  rendering of: the sum of the durations of the rows of smaller id that have a duration
  (a malformed one counting zero), plus the whole seconds of the interval itself. Three
  consecutive start/stop cycles on one idle project, each lasting at least zero seconds
  and less than 24 hours, write the running sums of the three durations on top of the
  project's earlier total; these sums grow strictly where the second and third duration
  are positive.
\<close>

theorem cumulative_time_on_stop:
  "(current_project_id s = Some pid \<and> pid \<noteq> 0 \<and> current_project_table s = Some tn \<and> tn \<noteq> [] \<and>
    lookup_table (tables s) tn = Some rows \<and> last_open rows = Some e \<longrightarrow>
    stop_project s now_s now_us =
      (Done, s\<lparr>tables := put_rows tn
                  (close_row (log_id e) now_s
                     (duration_str (timedelta_between (start_time e) now_s now_us))
                     (cumulative_str (prior_total (log_id e) rows +
                         int_total_seconds (timedelta_between (start_time e) now_s now_us)))
                     rows) (tables s),
                current_project_id := None, current_project_table := None\<rparr>)) \<and>
   (t \<noteq> ''No available projects to track.'' \<and>
    find (\<lambda>p. title p = t) (projects_master s) = Some p \<and> proj_id p \<noteq> 0 \<and> table_name p \<noteq> [] \<and>
    lookup_table (tables s) (table_name p) = Some old \<and> filter is_open old = [] \<and>
    0 \<le> d1 \<and> d1 < 86400 \<and> 0 \<le> d2 \<and> d2 < 86400 \<and> 0 \<le> d3 \<and> d3 < 86400 \<longrightarrow>
    (\<exists>new. lookup_table (tables (run [StartRecording (Some t) T1, StopProject (T1 + d1) u1,
                                 StartRecording (Some t) T2, StopProject (T2 + d2) u2,
                                 StartRecording (Some t) T3, StopProject (T3 + d3) u3] s))
                 (table_name p) = Some (old @ new) \<and>
           map cumulative_time new =
             [Some (cumulative_str (sum_list (map (\<lambda>r. contribution (duration r)) old) + d1)),
              Some (cumulative_str (sum_list (map (\<lambda>r. contribution (duration r)) old) + d1 + d2)),
              Some (cumulative_str (sum_list (map (\<lambda>r. contribution (duration r)) old) + d1 + d2 + d3))] \<and>
           (0 < d2 \<and> 0 < d3 \<longrightarrow>
              sum_list (map (\<lambda>r. contribution (duration r)) old) + d1
                < sum_list (map (\<lambda>r. contribution (duration r)) old) + d1 + d2 \<and>
              sum_list (map (\<lambda>r. contribution (duration r)) old) + d1 + d2
                < sum_list (map (\<lambda>r. contribution (duration r)) old) + d1 + d2 + d3)))"
proof (intro conjI impI)
  assume "current_project_id s = Some pid \<and> pid \<noteq> 0 \<and> current_project_table s = Some tn \<and> tn \<noteq> [] \<and>
    lookup_table (tables s) tn = Some rows \<and> last_open rows = Some e"
  then have h: "current_project_id s = Some pid" "pid \<noteq> 0" "current_project_table s = Some tn"
    "tn \<noteq> []" "lookup_table (tables s) tn = Some rows" "last_open rows = Some e"
    by simp_all
  show "stop_project s now_s now_us =
      (Done, s\<lparr>tables := put_rows tn
                  (close_row (log_id e) now_s
                     (duration_str (timedelta_between (start_time e) now_s now_us))
                     (cumulative_str (prior_total (log_id e) rows +
                         int_total_seconds (timedelta_between (start_time e) now_s now_us)))
                     rows) (tables s),
                current_project_id := None, current_project_table := None\<rparr>)"
    by (rule stop_project_running [OF h])
next
  assume a: "t \<noteq> ''No available projects to track.'' \<and>
    find (\<lambda>p. title p = t) (projects_master s) = Some p \<and> proj_id p \<noteq> 0 \<and> table_name p \<noteq> [] \<and>
    lookup_table (tables s) (table_name p) = Some old \<and> filter is_open old = [] \<and>
    0 \<le> d1 \<and> d1 < 86400 \<and> 0 \<le> d2 \<and> d2 < 86400 \<and> 0 \<le> d3 \<and> d3 < 86400"
  let ?tn = "table_name p"
  let ?B = "sum_list (map (\<lambda>r. contribution (duration r)) old)"
  let ?row = "\<lambda>rows T d us c. \<lparr>log_id = next_id (map log_id rows), start_time = T, end_time = Some (T + d),
                     duration = Some (duration_str (timedelta_between T (T + d) us)),
                     cumulative_time = Some (cumulative_str c)\<rparr>"
  let ?r1 = "?row old T1 d1 u1 (?B + d1)"
  let ?r2 = "?row (old @ [?r1]) T2 d2 u2 (?B + d1 + d2)"
  let ?r3 = "?row (old @ [?r1, ?r2]) T3 d3 u3 (?B + d1 + d2 + d3)"
  let ?s1 = "s\<lparr>tables := put_rows ?tn (old @ [?r1]) (tables s),
               current_project_id := None, current_project_table := None\<rparr>"
  let ?s2 = "s\<lparr>tables := put_rows ?tn (old @ [?r1, ?r2]) (tables s),
               current_project_id := None, current_project_table := None\<rparr>"
  let ?s3 = "s\<lparr>tables := put_rows ?tn (old @ [?r1, ?r2, ?r3]) (tables s),
               current_project_id := None, current_project_table := None\<rparr>"
  have c1: "run [StartRecording (Some t) T1, StopProject (T1 + d1) u1] s = ?s1"
    using a by (intro cycle) simp_all
  have m1: "lookup_table (tables ?s1) ?tn = Some (old @ [?r1])"
    using a by (simp add: lookup_put_rows)
  have o1: "filter is_open (old @ [?r1]) = []" using a by (simp add: is_open_def)
  have b1: "sum_list (map (\<lambda>r. contribution (duration r)) (old @ [?r1])) = ?B + d1"
    using a by (simp add: contribution_short)
  have "run [StartRecording (Some t) T2, StopProject (T2 + d2) u2] ?s1 =
        ?s1\<lparr>tables := put_rows ?tn ((old @ [?r1]) @
                [?row (old @ [?r1]) T2 d2 u2 (sum_list (map (\<lambda>r. contribution (duration r)) (old @ [?r1])) + d2)])
                (tables ?s1),
             current_project_id := None, current_project_table := None\<rparr>"
    using a by (intro cycle [OF _ _ _ _ m1 o1]) simp_all
  then have c2: "run [StartRecording (Some t) T2, StopProject (T2 + d2) u2] ?s1 = ?s2"
    by (simp only: b1) (simp add: put_rows_twice)
  have m2: "lookup_table (tables ?s2) ?tn = Some (old @ [?r1, ?r2])"
    using a by (simp add: lookup_put_rows)
  have o2: "filter is_open (old @ [?r1, ?r2]) = []" using a by (simp add: is_open_def)
  have b2: "sum_list (map (\<lambda>r. contribution (duration r)) (old @ [?r1, ?r2])) = ?B + d1 + d2"
    using a by (simp add: contribution_short)
  have "run [StartRecording (Some t) T3, StopProject (T3 + d3) u3] ?s2 =
        ?s2\<lparr>tables := put_rows ?tn ((old @ [?r1, ?r2]) @
                [?row (old @ [?r1, ?r2]) T3 d3 u3 (sum_list (map (\<lambda>r. contribution (duration r)) (old @ [?r1, ?r2])) + d3)])
                (tables ?s2),
             current_project_id := None, current_project_table := None\<rparr>"
    using a by (intro cycle [OF _ _ _ _ m2 o2]) simp_all
  then have c3: "run [StartRecording (Some t) T3, StopProject (T3 + d3) u3] ?s2 = ?s3"
    by (simp only: b2) (simp add: put_rows_twice)
  have split: "run (a1 # a2 # rest) x = run rest (run [a1, a2] x)" for a1 a2 rest x
    by (simp add: run_def)
  have "run [StartRecording (Some t) T1, StopProject (T1 + d1) u1,
             StartRecording (Some t) T2, StopProject (T2 + d2) u2,
             StartRecording (Some t) T3, StopProject (T3 + d3) u3] s = ?s3"
    by (simp only: split [of _ _ "_ # _"] c1 c2 c3)
  then have "lookup_table (tables (run [StartRecording (Some t) T1, StopProject (T1 + d1) u1,
             StartRecording (Some t) T2, StopProject (T2 + d2) u2,
             StartRecording (Some t) T3, StopProject (T3 + d3) u3] s)) ?tn = Some (old @ [?r1, ?r2, ?r3])"
    using a by (simp add: lookup_put_rows)
  then show "\<exists>new. lookup_table (tables (run [StartRecording (Some t) T1, StopProject (T1 + d1) u1,
                                 StartRecording (Some t) T2, StopProject (T2 + d2) u2,
                                 StartRecording (Some t) T3, StopProject (T3 + d3) u3] s))
                 (table_name p) = Some (old @ new) \<and>
           map cumulative_time new =
             [Some (cumulative_str (?B + d1)), Some (cumulative_str (?B + d1 + d2)),
              Some (cumulative_str (?B + d1 + d2 + d3))] \<and>
           (0 < d2 \<and> 0 < d3 \<longrightarrow> ?B + d1 < ?B + d1 + d2 \<and> ?B + d1 + d2 < ?B + d1 + d2 + d3)"
    by (intro exI [of _ "[?r1, ?r2, ?r3]"]) simp
qed

theorem cumulative_time_on_stop_witness:
  "last_open [\<lparr>log_id = 1, start_time = 1000, end_time = None, duration = None,
                cumulative_time = None\<rparr>]
     = Some \<lparr>log_id = 1, start_time = 1000, end_time = None, duration = None,
              cumulative_time = None\<rparr> \<and>
   stop_project (run [StartProject ''Alpha'' [] 1000] init_app) 1125 0 =
     (Done, \<lparr>projects_master = [\<lparr>proj_id = 1, title = ''Alpha'', details = [],
                                  table_name = ''project_Alpha''\<rparr>],
             tables = [(''project_alpha'',
                        [\<lparr>log_id = 1, start_time = 1000, end_time = Some 1125,
                          duration = Some ''0:02:05'', cumulative_time = Some ''00:02:05''\<rparr>])],
             current_project_id = None, current_project_table = None\<rparr>) \<and>
   (\<exists>new. lookup_table (tables (run [StartRecording (Some ''Alpha'') 2000, StopProject (2000 + 5) 0,
                           StartRecording (Some ''Alpha'') 3000, StopProject (3000 + 6) 0,
                           StartRecording (Some ''Alpha'') 4000, StopProject (4000 + 7) 0]
                       (run [StartProject ''Alpha'' [] 1000, StopProject 1125 0] init_app)))
             ''project_Alpha'' =
           Some ([\<lparr>log_id = 1, start_time = 1000, end_time = Some 1125,
                   duration = Some ''0:02:05'', cumulative_time = Some ''00:02:05''\<rparr>] @ new) \<and>
         map cumulative_time new = [Some ''00:02:10'', Some ''00:02:16'', Some ''00:02:23''])"
proof -
  let ?running = "run [StartProject ''Alpha'' [] 1000] init_app"
  let ?e = "\<lparr>log_id = 1, start_time = 1000, end_time = None, duration = None, cumulative_time = None\<rparr>"
  let ?idle = "run [StartProject ''Alpha'' [] 1000, StopProject 1125 0] init_app"
  let ?p = "\<lparr>proj_id = 1, title = ''Alpha'', details = [], table_name = ''project_Alpha''\<rparr>"
  let ?old = "[\<lparr>log_id = 1, start_time = 1000, end_time = Some 1125,
                duration = Some ''0:02:05'', cumulative_time = Some ''00:02:05''\<rparr>]"
  have h1: "current_project_id ?running = Some 1 \<and> (1::nat) \<noteq> 0 \<and>
            current_project_table ?running = Some ''project_Alpha'' \<and> ''project_Alpha'' \<noteq> [] \<and>
            lookup_table (tables ?running) ''project_Alpha'' = Some [?e] \<and> last_open [?e] = Some ?e"
    by (intro conjI; code_simp)
  have h2: "''Alpha'' \<noteq> ''No available projects to track.'' \<and>
    find (\<lambda>p. title p = ''Alpha'') (projects_master ?idle) = Some ?p \<and> proj_id ?p \<noteq> 0 \<and> table_name ?p \<noteq> [] \<and>
    lookup_table (tables ?idle) (table_name ?p) = Some ?old \<and> filter is_open ?old = [] \<and>
    (0::int) \<le> 5 \<and> (5::int) < 86400 \<and> (0::int) \<le> 6 \<and> (6::int) < 86400 \<and> (0::int) \<le> 7 \<and> (7::int) < 86400"
    by (intro conjI; code_simp)
  have c1: "stop_project ?running 1125 0 =
      (Done, ?running\<lparr>tables := put_rows ''project_Alpha''
                  (close_row (log_id ?e) 1125
                     (duration_str (timedelta_between (start_time ?e) 1125 0))
                     (cumulative_str (prior_total (log_id ?e) [?e] +
                         int_total_seconds (timedelta_between (start_time ?e) 1125 0)))
                     [?e]) (tables ?running),
                current_project_id := None, current_project_table := None\<rparr>)"
    by (rule cumulative_time_on_stop [THEN conjunct1, THEN mp, OF h1])
  have e1: "?running\<lparr>tables := put_rows ''project_Alpha''
                  (close_row (log_id ?e) 1125
                     (duration_str (timedelta_between (start_time ?e) 1125 0))
                     (cumulative_str (prior_total (log_id ?e) [?e] +
                         int_total_seconds (timedelta_between (start_time ?e) 1125 0)))
                     [?e]) (tables ?running),
                current_project_id := None, current_project_table := None\<rparr> =
        \<lparr>projects_master = [?p], tables = [(''project_alpha'', ?old)],
         current_project_id = None, current_project_table = None\<rparr>"
    by code_simp
  have c2: "\<exists>new. lookup_table (tables (run [StartRecording (Some ''Alpha'') 2000, StopProject (2000 + 5) 0,
                                 StartRecording (Some ''Alpha'') 3000, StopProject (3000 + 6) 0,
                                 StartRecording (Some ''Alpha'') 4000, StopProject (4000 + 7) 0] ?idle))
                 (table_name ?p) = Some (?old @ new) \<and>
           map cumulative_time new =
             [Some (cumulative_str (sum_list (map (\<lambda>r. contribution (duration r)) ?old) + 5)),
              Some (cumulative_str (sum_list (map (\<lambda>r. contribution (duration r)) ?old) + 5 + 6)),
              Some (cumulative_str (sum_list (map (\<lambda>r. contribution (duration r)) ?old) + 5 + 6 + 7))]"
    using cumulative_time_on_stop [where ?T1.0 = 2000 and ?u1.0 = 0 and ?T2.0 = 3000
        and ?u2.0 = 0 and ?T3.0 = 4000 and ?u3.0 = 0, THEN conjunct2, THEN mp, OF h2]
    by (elim exE conjE) (intro exI conjI, assumption+)
  have e2: "cumulative_str (sum_list (map (\<lambda>r. contribution (duration r)) ?old) + 5) = ''00:02:10''"
    "cumulative_str (sum_list (map (\<lambda>r. contribution (duration r)) ?old) + 5 + 6) = ''00:02:16''"
    "cumulative_str (sum_list (map (\<lambda>r. contribution (duration r)) ?old) + 5 + 6 + 7) = ''00:02:23''"
    "table_name ?p = ''project_Alpha''"
    by code_simp+
  from h1 have "last_open [?e] = Some ?e" by blast
  moreover from c1 have "stop_project ?running 1125 0 =
        (Done, \<lparr>projects_master = [?p], tables = [(''project_alpha'', ?old)],
         current_project_id = None, current_project_table = None\<rparr>)"
    by (simp only: e1)
  moreover from c2 have "\<exists>new. lookup_table (tables (run [StartRecording (Some ''Alpha'') 2000, StopProject (2000 + 5) 0,
                                 StartRecording (Some ''Alpha'') 3000, StopProject (3000 + 6) 0,
                                 StartRecording (Some ''Alpha'') 4000, StopProject (4000 + 7) 0] ?idle))
                 ''project_Alpha'' = Some (?old @ new) \<and>
           map cumulative_time new = [Some ''00:02:10'', Some ''00:02:16'', Some ''00:02:23'']"
    by (simp only: e2)
  ultimately show ?thesis by blast
qed

text \<open>
  Where C1 as stated fails: a cycle that starts and stops within one second repeats the
  previous cumulative value, and a cycle of 24 hours is left out of the later ones, whose
  running sums would read "24:01:00" and "24:02:00".
\<close>

theorem cumulative_time_on_stop_counterexample:
  "map_option (map cumulative_time)
     (lookup_table (tables (run [StartProject ''Alpha'' [] 0, StopProject 10 0,
                           StartRecording (Some ''Alpha'') 20, StopProject 20 0,
                           StartRecording (Some ''Alpha'') 30, StopProject 40 0] init_app))
        ''project_Alpha'') =
     Some [Some ''00:00:10'', Some ''00:00:10'', Some ''00:00:20''] \<and>
   map_option (map cumulative_time)
     (lookup_table (tables (run [StartProject ''Alpha'' [] 0, StopProject 86400 0,
                           StartRecording (Some ''Alpha'') 90000, StopProject 90060 0,
                           StartRecording (Some ''Alpha'') 95000, StopProject 95060 0] init_app))
        ''project_Alpha'') =
     Some [Some ''24:00:00'', Some ''00:01:00'', Some ''00:02:00''] \<and>
   cumulative_str (86400 + 60) = ''24:01:00'' \<and>
   cumulative_str (86400 + 60 + 60) = ''24:02:00''"
  by (intro conjI; code_simp)

section \<open>C2: the texts written by a stop\<close>












section \<open>C10: an interval of 24 hours or more\<close>

lemma duration_str_days:
  assumes "86400 \<le> el" "el = now - start"
  shows "duration_str (timedelta_between start now us) =
           show_int (el div 86400) @ '' day'' @ (if el div 86400 = 1 then [] else ''s'') @ '', '' @
           show_int (el mod 86400 div 3600) @ '':'' @ pad2 (el mod 86400 div 60 mod 60) @ '':'' @
           pad2 (el mod 60)"
proof -
  have le: "86400 \<le> now - start" using assms by simp
  have "1 \<le> el div 86400" using assms(1) by simp
  then have pl: "(\<bar>el div 86400\<bar> \<noteq> 1) = (el div 86400 \<noteq> 1)" by simp
  have a: "el mod 86400 div 60 div 60 = el mod 86400 div (60 * 60)"
    by (rule zdiv_zmult2_eq [symmetric]) simp
  have b: "el mod 86400 mod 60 = el mod 60" by (rule mod_mod_cancel) simp
  have "duration_str (timedelta_between start now us) =
           days_text (el div 86400) @
           hms_text (el mod 86400 div 60 div 60) (el mod 86400 div 60 mod 60) (el mod 86400 mod 60)"
    using duration_str_long [OF le, of us] assms(2) by simp
  then show ?thesis
    by (simp only: a b) (simp add: days_text_def hms_text_def pl)
qed

lemma hms_seconds_days_elapsed:
  assumes "86400 \<le> el" "el = now - start"
  shows "hms_seconds (duration_str (timedelta_between start now us)) = None"
proof -
  have "86400 \<le> now - start" using assms by simp
  then show ?thesis by (rule hms_seconds_duration_long)
qed

lemma sum_previous_skip:
  "hms_seconds d = None \<Longrightarrow> sum_previous (xs @ d # ys) acc = sum_previous (xs @ ys) acc"
  by (simp add: sum_previous_contribution contribution_def)

lemma sum_durations_skip:
  "hms_seconds d = None \<Longrightarrow> sum_durations (xs @ Some d # ys) acc = sum_durations (xs @ ys) acc"
  by (simp add: sum_durations_contribution contribution_def)

text \<open>
  C10. A stop of an interval that ran for 24 hours or more writes a duration of the
  form \<^verbatim>\<open>N day, H:MM:SS\<close> (one day) or \<^verbatim>\<open>N days, H:MM:SS\<close>. This text does not parse as
  hours, minutes and seconds, so it counts zero: the loop that sums the previous
  durations on a later stop and the loop of the total-time computation give the same
  result with the row as without it.
\<close>

theorem long_interval_excluded:
  assumes "current_project_id s = Some pid" "pid \<noteq> 0"
    and "current_project_table s = Some tn" "tn \<noteq> []"
    and "lookup_table (tables s) tn = Some rows" "last_open rows = Some e"
    and "el = now_s - start_time e" "86400 \<le> el"
  shows "\<exists>dur.
     dur = show_int (el div 86400) @ '' day'' @ (if el div 86400 = 1 then [] else ''s'') @ '', '' @
           show_int (el mod 86400 div 3600) @ '':'' @ pad2 (el mod 86400 div 60 mod 60) @ '':'' @
           pad2 (el mod 60) \<and>
     stop_project s now_s now_us =
       (Done, s\<lparr>tables := put_rows tn
                   (close_row (log_id e) now_s dur
                      (cumulative_str (prior_total (log_id e) rows + el)) rows) (tables s),
                 current_project_id := None, current_project_table := None\<rparr>) \<and>
     hms_seconds dur = None \<and>
     contribution (Some dur) = 0 \<and>
     sum_previous (xs @ dur # ys) acc = sum_previous (xs @ ys) acc \<and>
     sum_durations (zs @ Some dur # ws) acc' = sum_durations (zs @ ws) acc'"
proof -
  let ?dur = "duration_str (timedelta_between (start_time e) now_s now_us)"
  have its: "int_total_seconds (timedelta_between (start_time e) now_s now_us) = el"
    using assms(7,8) by (simp add: int_total_seconds_between)
  have stop: "stop_project s now_s now_us =
       (Done, s\<lparr>tables := put_rows tn
                   (close_row (log_id e) now_s ?dur
                      (cumulative_str (prior_total (log_id e) rows + el)) rows) (tables s),
                 current_project_id := None, current_project_table := None\<rparr>)"
    by (simp only: stop_project_running [OF assms(1-6)] its)
  have none: "hms_seconds ?dur = None"
    by (rule hms_seconds_days_elapsed [OF assms(8,7)])
  have shape: "?dur = show_int (el div 86400) @ '' day'' @ (if el div 86400 = 1 then [] else ''s'') @ '', '' @
           show_int (el mod 86400 div 3600) @ '':'' @ pad2 (el mod 86400 div 60 mod 60) @ '':'' @
           pad2 (el mod 60)"
    by (rule duration_str_days [OF assms(8,7)])
  have "contribution (Some ?dur) = 0" using none by (simp add: contribution_def)
  with shape stop none sum_previous_skip [OF none] sum_durations_skip [OF none]
  show ?thesis by (intro exI [of _ ?dur] conjI)
qed

theorem long_interval_excluded_witness:
  "last_open [\<lparr>log_id = 1, start_time = 0, end_time = None, duration = None, cumulative_time = None\<rparr>]
     = Some \<lparr>log_id = 1, start_time = 0, end_time = None, duration = None, cumulative_time = None\<rparr> \<and>
   (\<exists>dur. dur = ''1 day, 1:00:00'' \<and>
      stop_project (run [StartProject ''Alpha'' [] 0] init_app) 90000 0 =
        (Done, \<lparr>projects_master = [\<lparr>proj_id = 1, title = ''Alpha'', details = [],
                                     table_name = ''project_Alpha''\<rparr>],
                tables = [(''project_alpha'',
                           [\<lparr>log_id = 1, start_time = 0, end_time = Some 90000,
                             duration = Some dur, cumulative_time = Some ''25:00:00''\<rparr>])],
                current_project_id = None, current_project_table = None\<rparr>) \<and>
      hms_seconds dur = None \<and>
      sum_previous ([''0:02:05''] @ dur # [''0:01:00'']) 0 = sum_previous ([''0:02:05''] @ [''0:01:00'']) 0 \<and>
      sum_durations ([Some ''0:02:05''] @ Some dur # []) 0 = sum_durations ([Some ''0:02:05''] @ []) 0) \<and>
   update_total_time (run [StartProject ''Alpha'' [] 0, StopProject 90000 0] init_app) None = Inr 0"
proof -
  let ?running = "run [StartProject ''Alpha'' [] 0] init_app"
  let ?e = "\<lparr>log_id = 1, start_time = 0, end_time = None, duration = None, cumulative_time = None\<rparr>"
  have h: "current_project_id ?running = Some 1" "(1::nat) \<noteq> 0"
    "current_project_table ?running = Some ''project_Alpha''" "''project_Alpha'' \<noteq> []"
    "lookup_table (tables ?running) ''project_Alpha'' = Some [?e]" "last_open [?e] = Some ?e"
    "(90000::int) = 90000 - start_time ?e" "(86400::int) \<le> 90000"
    by code_simp+
  from long_interval_excluded [OF h, of 0 "[''0:02:05'']" "[''0:01:00'']" 0 "[Some ''0:02:05'']" "[]" 0]
  obtain dur where d:
    "dur = show_int (90000 div 86400) @ '' day'' @ (if (90000::int) div 86400 = 1 then [] else ''s'') @ '', '' @
           show_int (90000 mod 86400 div 3600) @ '':'' @ pad2 (90000 mod 86400 div 60 mod 60) @ '':'' @
           pad2 (90000 mod 60)"
    "stop_project ?running 90000 0 =
       (Done, ?running\<lparr>tables := put_rows ''project_Alpha''
                   (close_row (log_id ?e) 90000 dur
                      (cumulative_str (prior_total (log_id ?e) [?e] + 90000)) [?e]) (tables ?running),
                 current_project_id := None, current_project_table := None\<rparr>)"
    "hms_seconds dur = None"
    "sum_previous ([''0:02:05''] @ dur # [''0:01:00'']) 0 = sum_previous ([''0:02:05''] @ [''0:01:00'']) 0"
    "sum_durations ([Some ''0:02:05''] @ Some dur # []) 0 = sum_durations ([Some ''0:02:05''] @ []) 0"
    by (elim exE conjE)
  have e1: "show_int (90000 div 86400) @ '' day'' @ (if (90000::int) div 86400 = 1 then [] else ''s'') @ '', '' @
           show_int (90000 mod 86400 div 3600) @ '':'' @ pad2 (90000 mod 86400 div 60 mod 60) @ '':'' @
           pad2 (90000 mod 60) = ''1 day, 1:00:00''"
    by code_simp
  have dur: "dur = ''1 day, 1:00:00''" using d(1) by (simp only: e1)
  have e2: "?running\<lparr>tables := put_rows ''project_Alpha''
                   (close_row (log_id ?e) 90000 ''1 day, 1:00:00''
                      (cumulative_str (prior_total (log_id ?e) [?e] + 90000)) [?e]) (tables ?running),
                 current_project_id := None, current_project_table := None\<rparr> =
        \<lparr>projects_master = [\<lparr>proj_id = 1, title = ''Alpha'', details = [],
                                     table_name = ''project_Alpha''\<rparr>],
                tables = [(''project_alpha'',
                           [\<lparr>log_id = 1, start_time = 0, end_time = Some 90000,
                             duration = Some ''1 day, 1:00:00'', cumulative_time = Some ''25:00:00''\<rparr>])],
                current_project_id = None, current_project_table = None\<rparr>"
    by code_simp
  have e3: "update_total_time (run [StartProject ''Alpha'' [] 0, StopProject 90000 0] init_app) None = Inr 0"
    by code_simp
  have "stop_project ?running 90000 0 =
        (Done, \<lparr>projects_master = [\<lparr>proj_id = 1, title = ''Alpha'', details = [],
                                     table_name = ''project_Alpha''\<rparr>],
                tables = [(''project_alpha'',
                           [\<lparr>log_id = 1, start_time = 0, end_time = Some 90000,
                             duration = Some dur, cumulative_time = Some ''25:00:00''\<rparr>])],
                current_project_id = None, current_project_table = None\<rparr>)"
    using d(2) unfolding dur by (simp only: e2)
  with dur d(3,4,5) h(6) e3 show ?thesis by (intro conjI exI [of _ dur])
qed

section \<open>C3: starting while another project is running\<close>

lemma start_recording_idle:
  assumes "t \<noteq> ''No available projects to track.''"
    and "find (\<lambda>q. title q = t) (projects_master s) = Some p"
    and "lookup_table (tables s) (table_name p) = Some rows" "filter is_open rows = []"
  shows "start_recording s (Some t) now =
     (Done, s\<lparr>tables := put_rows (table_name p) (insert_log now rows) (tables s),
               current_project_id := Some (proj_id p),
               current_project_table := Some (table_name p)\<rparr>)"
  using assms by (simp add: start_recording_def)

lemma start_project_slot:
  "fst (start_project (s\<lparr>current_project_id := x, current_project_table := y\<rparr>) t d now) =
     fst (start_project s t d now) \<and>
   (fst (start_project s t d now) = Done \<longrightarrow>
     snd (start_project (s\<lparr>current_project_id := x, current_project_table := y\<rparr>) t d now) =
     snd (start_project s t d now))"
  by (simp add: start_project_def Let_def split: option.splits)

text \<open>
  C3, as the code has it. No start consults the running-project slot, and there is no
  AnotherProjectRunning failure. Whatever the slot holds, \<open>start_recording\<close> on a
  registered project that has no open interval (the selected text not being the list
  placeholder) succeeds, inserts an open row into the project's log and makes that
  project the running one; \<open>start_project\<close> has the same outcome, and on success the same
  resulting state, whatever the slot held.
\<close>

theorem start_ignores_running_slot:
  "(t \<noteq> ''No available projects to track.'' \<and>
    find (\<lambda>q. title q = t) (projects_master s) = Some p \<and>
    lookup_table (tables s) (table_name p) = Some rows \<and> filter is_open rows = [] \<longrightarrow>
    start_recording (s\<lparr>current_project_id := x, current_project_table := y\<rparr>) (Some t) now =
      (Done, s\<lparr>tables := put_rows (table_name p) (insert_log now rows) (tables s),
                current_project_id := Some (proj_id p),
                current_project_table := Some (table_name p)\<rparr>)) \<and>
   fst (start_project (s\<lparr>current_project_id := x, current_project_table := y\<rparr>) t d now) =
     fst (start_project s t d now) \<and>
   (fst (start_project s t d now) = Done \<longrightarrow>
     snd (start_project (s\<lparr>current_project_id := x, current_project_table := y\<rparr>) t d now) =
     snd (start_project s t d now))"
proof (intro conjI impI)
  assume a: "t \<noteq> ''No available projects to track.'' \<and>
    find (\<lambda>q. title q = t) (projects_master s) = Some p \<and>
    lookup_table (tables s) (table_name p) = Some rows \<and> filter is_open rows = []"
  let ?s = "s\<lparr>current_project_id := x, current_project_table := y\<rparr>"
  have "start_recording ?s (Some t) now =
     (Done, ?s\<lparr>tables := put_rows (table_name p) (insert_log now rows) (tables ?s),
               current_project_id := Some (proj_id p),
               current_project_table := Some (table_name p)\<rparr>)"
    using a by (intro start_recording_idle) simp_all
  then show "start_recording ?s (Some t) now =
      (Done, s\<lparr>tables := put_rows (table_name p) (insert_log now rows) (tables s),
                current_project_id := Some (proj_id p),
                current_project_table := Some (table_name p)\<rparr>)"
    by simp
next
  show "fst (start_project (s\<lparr>current_project_id := x, current_project_table := y\<rparr>) t d now) =
     fst (start_project s t d now)"
    using start_project_slot by blast
next
  assume "fst (start_project s t d now) = Done"
  then show "snd (start_project (s\<lparr>current_project_id := x, current_project_table := y\<rparr>) t d now) =
     snd (start_project s t d now)"
    using start_project_slot by blast
qed

theorem start_ignores_running_slot_witness:
  "current_project_id (run [StartProject ''A'' [] 0, StopProject 5 0, StartProject ''B'' [] 10] init_app) = Some 2 \<and>
   start_recording (run [StartProject ''A'' [] 0, StopProject 5 0, StartProject ''B'' [] 10] init_app)
       (Some ''A'') 20 =
     (Done, \<lparr>projects_master = [\<lparr>proj_id = 1, title = ''A'', details = [], table_name = ''project_A''\<rparr>,
                                 \<lparr>proj_id = 2, title = ''B'', details = [], table_name = ''project_B''\<rparr>],
             tables = [(''project_a'',
                        [\<lparr>log_id = 1, start_time = 0, end_time = Some 5, duration = Some ''0:00:05'',
                          cumulative_time = Some ''00:00:05''\<rparr>,
                         \<lparr>log_id = 2, start_time = 20, end_time = None, duration = None,
                          cumulative_time = None\<rparr>]),
                       (''project_b'',
                        [\<lparr>log_id = 1, start_time = 10, end_time = None, duration = None,
                          cumulative_time = None\<rparr>])],
             current_project_id = Some 1, current_project_table = Some ''project_A''\<rparr>) \<and>
   fst (start_project (run [StartProject ''A'' [] 0] init_app) ''B'' [] 10) = Done"
proof -
  let ?s = "run [StartProject ''A'' [] 0, StopProject 5 0, StartProject ''B'' [] 10] init_app"
  let ?p = "\<lparr>proj_id = 1, title = ''A'', details = [], table_name = ''project_A''\<rparr>"
  let ?rows = "[\<lparr>log_id = 1, start_time = 0, end_time = Some 5, duration = Some ''0:00:05'',
                          cumulative_time = Some ''00:00:05''\<rparr>]"
  have h: "''A'' \<noteq> ''No available projects to track.'' \<and>
    find (\<lambda>q. title q = ''A'') (projects_master ?s) = Some ?p \<and>
    lookup_table (tables ?s) (table_name ?p) = Some ?rows \<and> filter is_open ?rows = []"
    by (intro conjI; code_simp)
  note inst = start_ignores_running_slot [where s = ?s and t = "''A''" and p = ?p and rows = ?rows
      and x = "Some 2" and y = "Some ''project_B''" and now = 20]
  have c: "start_recording (?s\<lparr>current_project_id := Some 2, current_project_table := Some ''project_B''\<rparr>)
       (Some ''A'') 20 =
      (Done, ?s\<lparr>tables := put_rows (table_name ?p) (insert_log 20 ?rows) (tables ?s),
                current_project_id := Some (proj_id ?p),
                current_project_table := Some (table_name ?p)\<rparr>)"
    by (rule inst [THEN conjunct1, THEN mp, OF h])
  have e: "?s\<lparr>current_project_id := Some 2, current_project_table := Some ''project_B''\<rparr> = ?s"
    "?s\<lparr>tables := put_rows (table_name ?p) (insert_log 20 ?rows) (tables ?s),
                current_project_id := Some (proj_id ?p),
                current_project_table := Some (table_name ?p)\<rparr> =
     \<lparr>projects_master = [\<lparr>proj_id = 1, title = ''A'', details = [], table_name = ''project_A''\<rparr>,
                                 \<lparr>proj_id = 2, title = ''B'', details = [], table_name = ''project_B''\<rparr>],
             tables = [(''project_a'',
                        [\<lparr>log_id = 1, start_time = 0, end_time = Some 5, duration = Some ''0:00:05'',
                          cumulative_time = Some ''00:00:05''\<rparr>,
                         \<lparr>log_id = 2, start_time = 20, end_time = None, duration = None,
                          cumulative_time = None\<rparr>]),
                       (''project_b'',
                        [\<lparr>log_id = 1, start_time = 10, end_time = None, duration = None,
                          cumulative_time = None\<rparr>])],
             current_project_id = Some 1, current_project_table = Some ''project_A''\<rparr>"
    by code_simp+
  have f: "current_project_id ?s = Some 2"
    "fst (start_project (run [StartProject ''A'' [] 0] init_app) ''B'' [] 10) = Done"
    by code_simp+
  from c have "start_recording ?s (Some ''A'') 20 =
     (Done, \<lparr>projects_master = [\<lparr>proj_id = 1, title = ''A'', details = [], table_name = ''project_A''\<rparr>,
                                 \<lparr>proj_id = 2, title = ''B'', details = [], table_name = ''project_B''\<rparr>],
             tables = [(''project_a'',
                        [\<lparr>log_id = 1, start_time = 0, end_time = Some 5, duration = Some ''0:00:05'',
                          cumulative_time = Some ''00:00:05''\<rparr>,
                         \<lparr>log_id = 2, start_time = 20, end_time = None, duration = None,
                          cumulative_time = None\<rparr>]),
                       (''project_b'',
                        [\<lparr>log_id = 1, start_time = 10, end_time = None, duration = None,
                          cumulative_time = None\<rparr>])],
             current_project_id = Some 1, current_project_table = Some ''project_A''\<rparr>)"
    by (simp only: e)
  with f show ?thesis by (intro conjI)
qed

text \<open>Where C3 as stated fails: with project 2 running, a start on project 1 completes
  and inserts a row, and so does the creation of a second project while the first runs.\<close>

theorem start_ignores_running_slot_counterexample:
  "current_project_id (run [StartProject ''A'' [] 0, StopProject 5 0, StartProject ''B'' [] 10] init_app) = Some 2 \<and>
   fst (start_recording (run [StartProject ''A'' [] 0, StopProject 5 0, StartProject ''B'' [] 10] init_app)
          (Some ''A'') 20) = Done \<and>
   map_option length
     (lookup_table (tables (run [StartProject ''A'' [] 0, StopProject 5 0, StartProject ''B'' [] 10] init_app))
        ''project_A'') = Some 1 \<and>
   map_option length
     (lookup_table (tables (snd (start_recording
          (run [StartProject ''A'' [] 0, StopProject 5 0, StartProject ''B'' [] 10] init_app)
          (Some ''A'') 20))) ''project_A'') = Some 2 \<and>
   current_project_id (run [StartProject ''A'' [] 0] init_app) = Some 1 \<and>
   start_project (run [StartProject ''A'' [] 0] init_app) ''B'' [] 10 =
     (Done, \<lparr>projects_master = [\<lparr>proj_id = 1, title = ''A'', details = [], table_name = ''project_A''\<rparr>,
                                 \<lparr>proj_id = 2, title = ''B'', details = [], table_name = ''project_B''\<rparr>],
             tables = [(''project_a'',
                        [\<lparr>log_id = 1, start_time = 0, end_time = None, duration = None,
                          cumulative_time = None\<rparr>]),
                       (''project_b'',
                        [\<lparr>log_id = 1, start_time = 10, end_time = None, duration = None,
                          cumulative_time = None\<rparr>])],
             current_project_id = Some 2, current_project_table = Some ''project_B''\<rparr>)"
  by (intro conjI; code_simp)

section \<open>C7: a second start on a running project\<close>

text \<open>
  C7, as the code has it. For a project that already has an open interval, a second start
  changes nothing in the store and does not touch the running-project slot: it fails
  with AlreadyRunning, unless the project's title is the text of the list placeholder
  ("No available projects to track."), in which case the handler returns without any
  report.
\<close>

theorem second_start_rejected:
  assumes "find (\<lambda>q. title q = t) (projects_master s) = Some p"
    and "lookup_table (tables s) (table_name p) = Some rows"
    and "r \<in> set rows" "is_open r"
  shows "(t \<noteq> ''No available projects to track.'' \<longrightarrow>
            start_recording s (Some t) now = (Failed AlreadyRunning, s)) \<and>
         (t = ''No available projects to track.'' \<longrightarrow>
            start_recording s (Some t) now = (Ignored, s))"
proof -
  have "filter is_open rows \<noteq> []" using assms(3,4) by (auto simp: filter_empty_conv)
  then have "0 < length (filter is_open rows)" by simp
  then show ?thesis using assms(1,2) by (simp add: start_recording_def)
qed

theorem second_start_rejected_witness:
  "start_recording (run [StartProject ''Alpha'' [] 0] init_app) (Some ''Alpha'') 7 =
     (Failed AlreadyRunning, run [StartProject ''Alpha'' [] 0] init_app) \<and>
   is_open \<lparr>log_id = 1, start_time = 0, end_time = None, duration = None, cumulative_time = None\<rparr> \<and>
   lookup_table (tables (run [StartProject ''Alpha'' [] 0] init_app)) ''project_Alpha'' =
     Some [\<lparr>log_id = 1, start_time = 0, end_time = None, duration = None, cumulative_time = None\<rparr>]"
proof -
  let ?s = "run [StartProject ''Alpha'' [] 0] init_app"
  let ?p = "\<lparr>proj_id = 1, title = ''Alpha'', details = [], table_name = ''project_Alpha''\<rparr>"
  let ?r = "\<lparr>log_id = 1, start_time = 0, end_time = None, duration = None, cumulative_time = None\<rparr>"
  have h: "find (\<lambda>q. title q = ''Alpha'') (projects_master ?s) = Some ?p"
    "lookup_table (tables ?s) (table_name ?p) = Some [?r]" "?r \<in> set [?r]" "is_open ?r"
    by code_simp+
  have n: "''Alpha'' \<noteq> ''No available projects to track.''" by simp
  have m: "lookup_table (tables ?s) ''project_Alpha'' = Some [?r]" by code_simp
  from second_start_rejected [OF h, THEN conjunct1, THEN mp, OF n, of 7] h(4) m
  show ?thesis by (intro conjI)
qed

text \<open>Where C7 as stated fails: the project titled like the placeholder is running, and
  a second start on it is passed over without the AlreadyRunning report.\<close>

theorem second_start_rejected_counterexample:
  "map title (projects_master (run [StartProject ''No available projects to track.'' [] 0] init_app)) =
     [''No available projects to track.''] \<and>
   lookup_table (tables (run [StartProject ''No available projects to track.'' [] 0] init_app))
     ''project_No_available_projects_to_track'' =
     Some [\<lparr>log_id = 1, start_time = 0, end_time = None, duration = None, cumulative_time = None\<rparr>] \<and>
   fst (start_recording (run [StartProject ''No available projects to track.'' [] 0] init_app)
          (Some ''No available projects to track.'') 7) = Ignored \<and>
   Ignored \<noteq> Failed AlreadyRunning"
  by (intro conjI; code_simp)

section \<open>C9: project creation that fails\<close>

lemma start_project_on_none: "start_project_on NoStoreError s t d now = start_project s t d now"
  by (simp add: start_project_on_def start_project_def Let_def)

text \<open>
  C9, as the code has it. In every store the handlers can reach, the registry and the
  catalog agree. In such a store, creating a project under a title that already exists
  fails with DuplicateTitle and changes nothing; every creation that the handler itself
  refuses (empty title, duplicate title, table name already registered) leaves the whole
  state as it was; and after any creation without a store error the registry and the
  catalog still agree. A store error does not undo what was done before it: raised by
  the title lookup or by the table creation it leaves the state unchanged, raised by
  the registry insert it leaves the log table that was just created without a project
  record, and raised by the insert of the first interval it leaves the project record,
  its log table and the occupied running-project slot without an interval row.
\<close>

theorem create_project_failures:
  "registered (run acts init_app) \<and>
   start_project_on NoStoreError s t d now = start_project s t d now \<and>
   (registered s \<longrightarrow>
      ((\<exists>q \<in> set (projects_master s). title q = t) \<longrightarrow>
          start_project s t d now = (Failed DuplicateTitle, s)) \<and>
      (fst (start_project s t d now) \<noteq> Done \<longrightarrow> snd (start_project s t d now) = s) \<and>
      registered (snd (start_project s t d now))) \<and>
   (t \<noteq> [] \<longrightarrow> start_project_on SelectTitleFails s t d now = (Failed DatabaseError, s)) \<and>
   (t \<noteq> [] \<and> (\<forall>q \<in> set (projects_master s). title q \<noteq> t) \<longrightarrow>
      start_project_on CreateTableFails s t d now = (Failed DatabaseError, s) \<and>
      start_project_on InsertRegistryFails s t d now =
        (Failed DatabaseError, s\<lparr>tables := create_table (sanitize_table_name t) (tables s)\<rparr>)) \<and>
   (t \<noteq> [] \<and> (\<forall>q \<in> set (projects_master s). title q \<noteq> t) \<and>
    (\<forall>q \<in> set (projects_master s). table_name q \<noteq> sanitize_table_name t) \<longrightarrow>
      start_project_on InsertLogFails s t d now =
        (Failed DatabaseError,
         s\<lparr>tables := create_table (sanitize_table_name t) (tables s),
           projects_master := projects_master s @
             [\<lparr>proj_id = next_id (map proj_id (projects_master s)), title = t, details = d,
               table_name = sanitize_table_name t\<rparr>],
           current_project_id := Some (next_id (map proj_id (projects_master s))),
           current_project_table := Some (sanitize_table_name t)\<rparr>))"
proof (intro conjI impI)
  show "registered (run acts init_app)" by (rule reachable_registered)
next
  show "start_project_on NoStoreError s t d now = start_project s t d now"
    by (rule start_project_on_none)
next
  assume reg: "registered s" and "\<exists>q \<in> set (projects_master s). title q = t"
  then obtain q where q: "q \<in> set (projects_master s)" "title q = t" by blast
  then have "t \<noteq> []" using reg by (auto simp: registered_def)
  then show "start_project s t d now = (Failed DuplicateTitle, s)"
    using q by (auto simp: start_project_def)
next
  assume "registered s" "fst (start_project s t d now) \<noteq> Done"
  then show "snd (start_project s t d now) = s" by (rule start_project_rejected)
next
  assume "registered s"
  then show "registered (snd (start_project s t d now))" by (rule start_project_registered)
next
  assume "t \<noteq> []"
  then show "start_project_on SelectTitleFails s t d now = (Failed DatabaseError, s)"
    by (simp add: start_project_on_def)
next
  assume "t \<noteq> [] \<and> (\<forall>q \<in> set (projects_master s). title q \<noteq> t)"
  then show "start_project_on CreateTableFails s t d now = (Failed DatabaseError, s)"
    by (simp add: start_project_on_def)
next
  assume "t \<noteq> [] \<and> (\<forall>q \<in> set (projects_master s). title q \<noteq> t)"
  then show "start_project_on InsertRegistryFails s t d now =
        (Failed DatabaseError, s\<lparr>tables := create_table (sanitize_table_name t) (tables s)\<rparr>)"
    by (simp add: start_project_on_def Let_def)
next
  assume "t \<noteq> [] \<and> (\<forall>q \<in> set (projects_master s). title q \<noteq> t) \<and>
    (\<forall>q \<in> set (projects_master s). table_name q \<noteq> sanitize_table_name t)"
  then show "start_project_on InsertLogFails s t d now =
        (Failed DatabaseError,
         s\<lparr>tables := create_table (sanitize_table_name t) (tables s),
           projects_master := projects_master s @
             [\<lparr>proj_id = next_id (map proj_id (projects_master s)), title = t, details = d,
               table_name = sanitize_table_name t\<rparr>],
           current_project_id := Some (next_id (map proj_id (projects_master s))),
           current_project_table := Some (sanitize_table_name t)\<rparr>)"
    by (simp add: start_project_on_def Let_def)
qed

theorem create_project_failures_witness:
  "registered (run [StartProject ''a b'' [] 0, StopProject 9 0] init_app) \<and>
   map title (projects_master (run [StartProject ''a b'' [] 0, StopProject 9 0] init_app)) = [''a b''] \<and>
   start_project (run [StartProject ''a b'' [] 0, StopProject 9 0] init_app) ''a b'' ''again'' 20 =
     (Failed DuplicateTitle, run [StartProject ''a b'' [] 0, StopProject 9 0] init_app) \<and>
   fst (start_project (run [StartProject ''a b'' [] 0, StopProject 9 0] init_app) ''a_b'' [] 20) =
     Failed IntegrityError \<and>
   snd (start_project (run [StartProject ''a b'' [] 0, StopProject 9 0] init_app) ''a_b'' [] 20) =
     run [StartProject ''a b'' [] 0, StopProject 9 0] init_app \<and>
   registered (snd (start_project (run [StartProject ''a b'' [] 0, StopProject 9 0] init_app) ''c'' [] 20)) \<and>
   start_project_on SelectTitleFails (run [StartProject ''a b'' [] 0, StopProject 9 0] init_app) ''c'' [] 20 =
     (Failed DatabaseError, run [StartProject ''a b'' [] 0, StopProject 9 0] init_app) \<and>
   start_project_on CreateTableFails (run [StartProject ''a b'' [] 0, StopProject 9 0] init_app) ''c'' [] 20 =
     (Failed DatabaseError, run [StartProject ''a b'' [] 0, StopProject 9 0] init_app) \<and>
   lookup_table (tables (snd (start_project_on InsertRegistryFails
       (run [StartProject ''a b'' [] 0, StopProject 9 0] init_app) ''c'' [] 20))) ''project_c'' = Some [] \<and>
   map title (projects_master (snd (start_project_on InsertRegistryFails
       (run [StartProject ''a b'' [] 0, StopProject 9 0] init_app) ''c'' [] 20))) = [''a b''] \<and>
   map title (projects_master (snd (start_project_on InsertLogFails
       (run [StartProject ''a b'' [] 0, StopProject 9 0] init_app) ''c'' [] 20))) = [''a b'', ''c''] \<and>
   lookup_table (tables (snd (start_project_on InsertLogFails
       (run [StartProject ''a b'' [] 0, StopProject 9 0] init_app) ''c'' [] 20))) ''project_c'' = Some [] \<and>
   current_project_id (snd (start_project_on InsertLogFails
       (run [StartProject ''a b'' [] 0, StopProject 9 0] init_app) ''c'' [] 20)) = Some 2"
proof -
  let ?s = "run [StartProject ''a b'' [] 0, StopProject 9 0] init_app"
  let ?c = "\<lparr>proj_id = next_id (map proj_id (projects_master ?s)), title = ''c'', details = [],
               table_name = sanitize_table_name ''c''\<rparr>"
  note inst = create_project_failures [where acts = "[StartProject ''a b'' [] 0, StopProject 9 0]" and s = ?s]
  have reg: "registered ?s" by (rule inst [THEN conjunct1])
  note known = inst [THEN conjunct2, THEN conjunct2, THEN conjunct1, THEN mp, OF reg]
  note faults = inst [THEN conjunct2, THEN conjunct2, THEN conjunct2]
  have ex: "\<exists>q \<in> set (projects_master ?s). title q = ''a b''" by code_simp
  have titles: "map title (projects_master ?s) = [''a b'']" by code_simp
  have f: "fst (start_project ?s ''a_b'' [] 20) = Failed IntegrityError" by code_simp
  then have nd: "fst (start_project ?s ''a_b'' [] 20) \<noteq> Done" by simp
  have h1: "''c'' \<noteq> []" by simp
  have h2: "''c'' \<noteq> [] \<and> (\<forall>q \<in> set (projects_master ?s). title q \<noteq> ''c'')"
    by (intro conjI; code_simp)
  have h3: "''c'' \<noteq> [] \<and> (\<forall>q \<in> set (projects_master ?s). title q \<noteq> ''c'') \<and>
    (\<forall>q \<in> set (projects_master ?s). table_name q \<noteq> sanitize_table_name ''c'')"
    by (intro conjI; code_simp)
  have c1: "start_project ?s ''a b'' ''again'' 20 = (Failed DuplicateTitle, ?s)"
    by (rule known [THEN conjunct1, THEN mp, OF ex])
  have c2: "snd (start_project ?s ''a_b'' [] 20) = ?s"
    by (rule known [THEN conjunct2, THEN conjunct1, THEN mp, OF nd])
  have c3: "registered (snd (start_project ?s ''c'' [] 20))"
    by (rule known [THEN conjunct2, THEN conjunct2])
  have c4: "start_project_on SelectTitleFails ?s ''c'' [] 20 = (Failed DatabaseError, ?s)"
    by (rule faults [THEN conjunct1, THEN mp, OF h1])
  have c5: "start_project_on CreateTableFails ?s ''c'' [] 20 = (Failed DatabaseError, ?s)"
    by (rule faults [THEN conjunct2, THEN conjunct1, THEN mp, OF h2, THEN conjunct1])
  have c6: "start_project_on InsertRegistryFails ?s ''c'' [] 20 =
        (Failed DatabaseError, ?s\<lparr>tables := create_table (sanitize_table_name ''c'') (tables ?s)\<rparr>)"
    by (rule faults [THEN conjunct2, THEN conjunct1, THEN mp, OF h2, THEN conjunct2])
  have c7: "start_project_on InsertLogFails ?s ''c'' [] 20 =
        (Failed DatabaseError,
         ?s\<lparr>tables := create_table (sanitize_table_name ''c'') (tables ?s),
           projects_master := projects_master ?s @ [?c],
           current_project_id := Some (next_id (map proj_id (projects_master ?s))),
           current_project_table := Some (sanitize_table_name ''c'')\<rparr>)"
    by (rule faults [THEN conjunct2, THEN conjunct2, THEN mp, OF h3])
  have e6: "lookup_table (tables (?s\<lparr>tables := create_table (sanitize_table_name ''c'') (tables ?s)\<rparr>))
              ''project_c'' = Some []"
    "map title (projects_master (?s\<lparr>tables := create_table (sanitize_table_name ''c'') (tables ?s)\<rparr>))
       = [''a b'']"
    by code_simp+
  have e7: "map title (projects_master
         (?s\<lparr>tables := create_table (sanitize_table_name ''c'') (tables ?s),
           projects_master := projects_master ?s @ [?c],
           current_project_id := Some (next_id (map proj_id (projects_master ?s))),
           current_project_table := Some (sanitize_table_name ''c'')\<rparr>)) = [''a b'', ''c'']"
    "lookup_table (tables
         (?s\<lparr>tables := create_table (sanitize_table_name ''c'') (tables ?s),
           projects_master := projects_master ?s @ [?c],
           current_project_id := Some (next_id (map proj_id (projects_master ?s))),
           current_project_table := Some (sanitize_table_name ''c'')\<rparr>)) ''project_c'' = Some []"
    "current_project_id
         (?s\<lparr>tables := create_table (sanitize_table_name ''c'') (tables ?s),
           projects_master := projects_master ?s @ [?c],
           current_project_id := Some (next_id (map proj_id (projects_master ?s))),
           current_project_table := Some (sanitize_table_name ''c'')\<rparr>) = Some 2"
    by code_simp+
  have d6: "lookup_table (tables (snd (start_project_on InsertRegistryFails ?s ''c'' [] 20))) ''project_c'' = Some []"
    "map title (projects_master (snd (start_project_on InsertRegistryFails ?s ''c'' [] 20))) = [''a b'']"
    by (simp_all only: c6 snd_conv e6)
  have d7: "map title (projects_master (snd (start_project_on InsertLogFails ?s ''c'' [] 20))) = [''a b'', ''c'']"
    "lookup_table (tables (snd (start_project_on InsertLogFails ?s ''c'' [] 20))) ''project_c'' = Some []"
    "current_project_id (snd (start_project_on InsertLogFails ?s ''c'' [] 20)) = Some 2"
    by (simp_all only: c7 snd_conv e7)
  from reg titles c1 f c2 c3 c4 c5 d6 d7 show ?thesis by (intro conjI)
qed

text \<open>Where C9 as stated fails: a store error at the registry insert leaves the log table
  "project_alpha" committed with no project record, and one at the insert of the first
  interval leaves the record and the occupied slot with an empty log table.\<close>

theorem create_project_failures_counterexample:
  "start_project_on InsertRegistryFails init_app ''Alpha'' [] 0 =
     (Failed DatabaseError,
      \<lparr>projects_master = [], tables = [(''project_alpha'', [])],
       current_project_id = None, current_project_table = None\<rparr>) \<and>
   start_project_on InsertLogFails init_app ''Alpha'' [] 0 =
     (Failed DatabaseError,
      \<lparr>projects_master = [\<lparr>proj_id = 1, title = ''Alpha'', details = [],
                             table_name = ''project_Alpha''\<rparr>],
       tables = [(''project_alpha'', [])],
       current_project_id = Some 1, current_project_table = Some ''project_Alpha''\<rparr>) \<and>
   init_app = \<lparr>projects_master = [], tables = [], current_project_id = None,
                current_project_table = None\<rparr>"
  by (intro conjI; code_simp)

section \<open>C4: at most one open interval per project\<close>

text \<open>The handlers that keep the single open row: start, stop and startup recovery
  always, a creation when the new table name resolves to no table already there.\<close>

lemma single_open_kept:
  assumes "single_open s"
  shows "single_open (exec (StartRecording sel now) s)"
    and "single_open (exec (StopProject now_s now_us) s)"
    and "single_open (exec Startup s)"
    and "lookup_table (tables s) (sanitize_table_name t) = None \<Longrightarrow>
         single_open (exec (StartProject t d now) s)"
proof -
  show "single_open (exec (StartRecording sel now) s)"
    using assms by (simp add: start_recording_single_open)
  show "single_open (exec (StopProject now_s now_us) s)"
    using assms by (simp add: stop_project_single_open)
  have "single_open (s\<lparr>current_project_id := None, current_project_table := None\<rparr>)"
    using assms by (simp add: single_open_def)
  then show "single_open (exec Startup s)"
    by (simp add: check_open_projects_single_open)
  show "single_open (exec (StartProject t d now) s)"
    if "lookup_table (tables s) (sanitize_table_name t) = None"
    using assms that by (simp add: start_project_single_open)
qed

text \<open>
  C4 does not hold of the code. Creating "Alpha" and then "alpha" is accepted: the titles
  differ and so do the texts "project_Alpha" and "project_alpha" in the registry, but
  both names resolve to one log table. The second creation finds that table (nothing
  is created) and inserts its open row next to the open row of the first project, with
  no check for an open row such as \<open>start_recording\<close> makes. The reached state has a log
  table with two rows whose \<open>end_time\<close> is null, so the single-open-interval invariant is
  broken by \<open>start_project\<close>.
\<close>

theorem single_open_broken_by_shared_table:
  "projects_master (run [StartProject ''Alpha'' [] 0, StartProject ''alpha'' [] 10] init_app) =
     [\<lparr>proj_id = 1, title = ''Alpha'', details = [], table_name = ''project_Alpha''\<rparr>,
      \<lparr>proj_id = 2, title = ''alpha'', details = [], table_name = ''project_alpha''\<rparr>] \<and>
   lookup_table (tables (run [StartProject ''Alpha'' [] 0, StartProject ''alpha'' [] 10] init_app))
     ''project_alpha'' =
     Some [\<lparr>log_id = 1, start_time = 0, end_time = None, duration = None, cumulative_time = None\<rparr>,
           \<lparr>log_id = 2, start_time = 10, end_time = None, duration = None, cumulative_time = None\<rparr>] \<and>
   lookup_table (tables (run [StartProject ''Alpha'' [] 0, StartProject ''alpha'' [] 10] init_app))
     ''project_Alpha'' =
     lookup_table (tables (run [StartProject ''Alpha'' [] 0, StartProject ''alpha'' [] 10] init_app))
     ''project_alpha'' \<and>
   single_open (run [StartProject ''Alpha'' [] 0] init_app) \<and>
   \<not> single_open (run [StartProject ''Alpha'' [] 0, StartProject ''alpha'' [] 10] init_app)"
proof -
  let ?s = "run [StartProject ''Alpha'' [] 0, StartProject ''alpha'' [] 10] init_app"
  let ?rows = "[\<lparr>log_id = 1, start_time = 0, end_time = None, duration = None, cumulative_time = None\<rparr>,
           \<lparr>log_id = 2, start_time = 10, end_time = None, duration = None, cumulative_time = None\<rparr>]"
  have pm: "projects_master ?s =
     [\<lparr>proj_id = 1, title = ''Alpha'', details = [], table_name = ''project_Alpha''\<rparr>,
      \<lparr>proj_id = 2, title = ''alpha'', details = [], table_name = ''project_alpha''\<rparr>]"
    by code_simp
  have rows: "lookup_table (tables ?s) ''project_alpha'' = Some ?rows" by code_simp
  have same: "lookup_table (tables ?s) ''project_Alpha'' = lookup_table (tables ?s) ''project_alpha''"
    by code_simp
  have "single_open init_app" by (simp add: single_open_def init_app_def lookup_table_def)
  moreover have "lookup_table (tables init_app) (sanitize_table_name ''Alpha'') = None"
    by (simp add: init_app_def lookup_table_def)
  ultimately have "single_open (snd (start_project init_app ''Alpha'' [] 0))"
    by (rule start_project_single_open)
  then have before: "single_open (run [StartProject ''Alpha'' [] 0] init_app)"
    by (simp add: run_def)
  have "length (filter is_open ?rows) = 2" by (simp add: is_open_def)
  then have "\<not> length (filter is_open ?rows) \<le> 1" by simp
  with rows have broken: "\<not> single_open ?s" unfolding single_open_def by blast
  from pm rows same before broken show ?thesis by (intro conjI)
qed

theorem single_open_broken_by_shared_table_witness:
  "lookup_table (tables (run [StartProject ''Alpha'' [] 0, StartProject ''alpha'' [] 10] init_app))
     ''project_alpha'' =
     Some [\<lparr>log_id = 1, start_time = 0, end_time = None, duration = None, cumulative_time = None\<rparr>,
           \<lparr>log_id = 2, start_time = 10, end_time = None, duration = None, cumulative_time = None\<rparr>] \<and>
   length (filter is_open
     [\<lparr>log_id = 1, start_time = 0, end_time = None, duration = None, cumulative_time = None\<rparr>,
      \<lparr>log_id = 2, start_time = 10, end_time = None, duration = None, cumulative_time = None\<rparr>]) = 2 \<and>
   \<not> single_open (run [StartProject ''Alpha'' [] 0, StartProject ''alpha'' [] 10] init_app)"
proof -
  note t = single_open_broken_by_shared_table
  have "length (filter is_open
     [\<lparr>log_id = 1, start_time = 0, end_time = None, duration = None, cumulative_time = None\<rparr>,
      \<lparr>log_id = 2, start_time = 10, end_time = None, duration = None, cumulative_time = None\<rparr>]) = 2"
    by (simp add: is_open_def)
  with t [THEN conjunct2, THEN conjunct1]
    t [THEN conjunct2, THEN conjunct2, THEN conjunct2, THEN conjunct2]
  show ?thesis by (intro conjI)
qed

section \<open>C8: startup recovery\<close>

lemma has_open_log_rows:
  "lookup_table tbls (table_name p) = Some rows \<Longrightarrow> has_open_log tbls p = (filter is_open rows \<noteq> [])"
  by (simp add: has_open_log_def filter_empty_conv)

lemma scan_open_result:
  assumes "\<forall>p \<in> set projs. lookup_table tbls (table_name p) \<noteq> None"
  shows "\<exists>found. scan_open tbls projs acc = Inr (acc @ found) \<and>
                 map fst found = filter (has_open_log tbls) projs"
  using assms
proof (induction projs arbitrary: acc)
  case Nil
  show ?case by simp
next
  case (Cons p projs)
  then obtain rows where rows: "lookup_table tbls (table_name p) = Some rows" by auto
  show ?case
  proof (cases "filter is_open rows")
    case Nil
    then have "\<not> has_open_log tbls p" using has_open_log_rows [OF rows] by simp
    moreover obtain found where "scan_open tbls projs acc = Inr (acc @ found)"
      "map fst found = filter (has_open_log tbls) projs"
      using Cons.IH [of acc] Cons.prems by auto
    ultimately show ?thesis using rows Nil by simp
  next
    case (Cons open_log rest)
    then have h: "has_open_log tbls p" using has_open_log_rows [OF rows] by simp
    obtain found where f: "scan_open tbls projs (acc @ [(p, open_log)]) = Inr ((acc @ [(p, open_log)]) @ found)"
      "map fst found = filter (has_open_log tbls) projs"
      using Cons.IH [of "acc @ [(p, open_log)]"] Cons.prems by auto
    have "scan_open tbls (p # projs) acc = Inr (acc @ ((p, open_log) # found))"
      using rows Cons f(1) by simp
    moreover have "map fst ((p, open_log) # found) = filter (has_open_log tbls) (p # projs)"
      using h f(2) by simp
    ultimately show ?thesis by blast
  qed
qed

lemma find_as_filter: "find P xs = (case filter P xs of [] \<Rightarrow> None | x # _ \<Rightarrow> Some x)"
  by (induction xs) auto

lemma find_only:
  "p \<in> set xs \<Longrightarrow> \<forall>q \<in> set xs. P q = (q = p) \<Longrightarrow> find P xs = Some p"
  by (induction xs) auto

lemma find_nowhere: "\<forall>q \<in> set xs. \<not> P q \<Longrightarrow> find P xs = None"
  by (induction xs) auto

lemma check_open_projects_find:
  assumes "\<forall>p \<in> set (projects_master s). lookup_table (tables s) (table_name p) \<noteq> None"
    and "current_project_id s = None"
  shows "check_open_projects s =
     (Done, case find (has_open_log (tables s)) (projects_master s) of
              None \<Rightarrow> s
            | Some p \<Rightarrow> s\<lparr>current_project_id := Some (proj_id p),
                           current_project_table := Some (table_name p)\<rparr>)"
proof -
  obtain found where f: "scan_open (tables s) (projects_master s) [] = Inr found"
    "map fst found = filter (has_open_log (tables s)) (projects_master s)"
    using scan_open_result [OF assms(1), of "[]"] by auto
  show ?thesis
  proof (cases found)
    case Nil
    then have "find (has_open_log (tables s)) (projects_master s) = None"
      using f(2) by (simp add: find_as_filter)
    then show ?thesis using f(1) Nil by (simp add: check_open_projects_def)
  next
    case (Cons x rest)
    obtain p open_log where x: "x = (p, open_log)" by (cases x)
    have "filter (has_open_log (tables s)) (projects_master s) = p # map fst rest"
      using f(2) Cons x by simp
    then have "find (has_open_log (tables s)) (projects_master s) = Some p"
      by (simp add: find_as_filter)
    then show ?thesis using f(1) Cons x assms(2) by (simp add: check_open_projects_def)
  qed
qed

lemma start_project_master:
  "projects_master (snd (start_project s t d now)) = projects_master s \<or>
   (\<exists>p. projects_master (snd (start_project s t d now)) = projects_master s @ [p] \<and>
        proj_id p = next_id (map proj_id (projects_master s)))"
  by (auto simp: start_project_def Let_def split: option.splits)

lemma start_recording_master:
  "projects_master (snd (start_recording s sel now)) = projects_master s"
  by (auto simp: start_recording_def Let_def split: option.splits if_splits list.splits)

lemma stop_project_master:
  "projects_master (snd (stop_project s now_s now_us)) = projects_master s"
  by (auto simp: stop_project_def Let_def split: option.splits if_splits list.splits sum.splits)

lemma check_open_projects_master:
  "projects_master (snd (check_open_projects s)) = projects_master s"
  by (auto simp: check_open_projects_def Let_def
           split: option.splits if_splits list.splits sum.splits prod.splits)

lemma ids_ascending_append:
  assumes "sorted_wrt (<) (map proj_id ps)" and "proj_id p = next_id (map proj_id ps)"
  shows "sorted_wrt (<) (map proj_id (ps @ [p]))"
proof -
  have "\<forall>x \<in> set (map proj_id ps). x < proj_id p"
    using assms(2) next_id_greater [of _ "map proj_id ps"] by simp
  then show ?thesis using assms(1) by (simp add: sorted_wrt_append)
qed

lemma exec_ids_ascending:
  assumes "sorted_wrt (<) (map proj_id (projects_master s))"
  shows "sorted_wrt (<) (map proj_id (projects_master (exec a s)))"
proof (cases a)
  case (StartProject t d now)
  show ?thesis
    using start_project_master [of s t d now] assms ids_ascending_append
    unfolding StartProject exec.simps by metis
next
  case (StartRecording sel now)
  show ?thesis using assms unfolding StartRecording exec.simps start_recording_master .
next
  case (StopProject now_s now_us)
  show ?thesis using assms unfolding StopProject exec.simps stop_project_master .
next
  case Startup
  show ?thesis using assms unfolding Startup exec.simps check_open_projects_master by simp
qed

lemma run_ids_ascending:
  "sorted_wrt (<) (map proj_id (projects_master s)) \<Longrightarrow>
   sorted_wrt (<) (map proj_id (projects_master (run acts s)))"
  unfolding run_def by (induction acts arbitrary: s) (simp_all add: exec_ids_ascending)

lemma reachable_ids_ascending:
  "sorted_wrt (<) (map proj_id (projects_master (run acts init_app)))"
  by (rule run_ids_ascending) (simp add: init_app_def)

text \<open>
  C8, as the code has it. The startup scan reads the registry with no \<^verbatim>\<open>ORDER BY\<close>, so
  it visits the projects in the order of the registry table, which is the order of
  creation and of ascending id in every store the handlers can reach; this is not the
  order of the project listing, which is by title ascending. On a store where every
  registered project has its log table, and with no running project recorded yet (the
  state of a fresh application object), \<open>check_open_projects\<close> completes and records as
  running project the first project, in registry order, whose log table has a row with
  a null \<open>end_time\<close>; it records none when there is no such project. In particular, when
  exactly one project has an open interval that project is recorded, and when no
  project has one the slot stays empty. A startup on any such store gives the same
  result, whatever the slot held before.
\<close>

theorem startup_recovery:
  assumes "\<forall>p \<in> set (projects_master s). lookup_table (tables s) (table_name p) \<noteq> None"
  shows "(current_project_id s = None \<longrightarrow>
            check_open_projects s =
              (Done, case find (has_open_log (tables s)) (projects_master s) of
                       None \<Rightarrow> s
                     | Some p \<Rightarrow> s\<lparr>current_project_id := Some (proj_id p),
                                    current_project_table := Some (table_name p)\<rparr>)) \<and>
         current_project_id (exec Startup s) =
           map_option proj_id (find (has_open_log (tables s)) (projects_master s)) \<and>
         current_project_table (exec Startup s) =
           map_option table_name (find (has_open_log (tables s)) (projects_master s)) \<and>
         (p \<in> set (projects_master s) \<and>
          (\<forall>q \<in> set (projects_master s). has_open_log (tables s) q = (q = p)) \<longrightarrow>
            current_project_id (exec Startup s) = Some (proj_id p)) \<and>
         ((\<forall>q \<in> set (projects_master s). \<not> has_open_log (tables s) q) \<longrightarrow>
            current_project_id (exec Startup s) = None) \<and>
         sorted_wrt (<) (map proj_id (projects_master (run acts init_app)))"
proof -
  let ?cleared = "s\<lparr>current_project_id := None, current_project_table := None\<rparr>"
  let ?f = "find (has_open_log (tables s)) (projects_master s)"
  have "\<forall>p \<in> set (projects_master ?cleared). lookup_table (tables ?cleared) (table_name p) \<noteq> None"
    using assms by simp
  moreover have "current_project_id ?cleared = None" by simp
  ultimately have "check_open_projects ?cleared =
     (Done, case find (has_open_log (tables ?cleared)) (projects_master ?cleared) of
              None \<Rightarrow> ?cleared
            | Some p \<Rightarrow> ?cleared\<lparr>current_project_id := Some (proj_id p),
                           current_project_table := Some (table_name p)\<rparr>)"
    by (rule check_open_projects_find)
  then have st: "exec Startup s =
     (case ?f of None \<Rightarrow> ?cleared
      | Some p \<Rightarrow> ?cleared\<lparr>current_project_id := Some (proj_id p),
                      current_project_table := Some (table_name p)\<rparr>)"
    by simp
  have id: "current_project_id (exec Startup s) = map_option proj_id ?f"
    and tb: "current_project_table (exec Startup s) = map_option table_name ?f"
    unfolding st by (cases ?f; simp)+
  have one: "current_project_id (exec Startup s) = Some (proj_id p)"
    if "p \<in> set (projects_master s) \<and>
        (\<forall>q \<in> set (projects_master s). has_open_log (tables s) q = (q = p))"
  proof -
    have "?f = Some p" using that by (intro find_only) simp_all
    then show ?thesis by (simp only: id option.map)
  qed
  have none: "current_project_id (exec Startup s) = None"
    if "\<forall>q \<in> set (projects_master s). \<not> has_open_log (tables s) q"
  proof -
    have "?f = None" using that by (rule find_nowhere)
    then show ?thesis by (simp only: id option.map)
  qed
  have asc: "sorted_wrt (<) (map proj_id (projects_master (run acts init_app)))"
    by (rule reachable_ids_ascending)
  have first: "current_project_id s = None \<longrightarrow>
            check_open_projects s =
              (Done, case find (has_open_log (tables s)) (projects_master s) of
                       None \<Rightarrow> s
                     | Some p \<Rightarrow> s\<lparr>current_project_id := Some (proj_id p),
                                    current_project_table := Some (table_name p)\<rparr>)"
    using check_open_projects_find [OF assms] by blast
  have single: "p \<in> set (projects_master s) \<and>
          (\<forall>q \<in> set (projects_master s). has_open_log (tables s) q = (q = p)) \<longrightarrow>
            current_project_id (exec Startup s) = Some (proj_id p)"
    using one by (rule impI)
  have empty: "(\<forall>q \<in> set (projects_master s). \<not> has_open_log (tables s) q) \<longrightarrow>
            current_project_id (exec Startup s) = None"
    using none by (rule impI)
  from first id tb single empty asc show ?thesis by (intro conjI)
qed

theorem startup_recovery_witness:
  "current_project_id (exec Startup (run [StartProject ''A'' [] 0, StopProject 5 0,
                                          StartProject ''B'' [] 10] init_app)) = Some 2 \<and>
   current_project_table (exec Startup (run [StartProject ''A'' [] 0, StopProject 5 0,
                                             StartProject ''B'' [] 10] init_app)) = Some ''project_B'' \<and>
   current_project_id (exec Startup (run [StartProject ''A'' [] 0, StopProject 5 0] init_app)) = None \<and>
   map title (projects_master (run [StartProject ''B'' [] 0, StartProject ''A'' [] 10] init_app)) =
     [''B'', ''A''] \<and>
   map title (list_projects (run [StartProject ''B'' [] 0, StartProject ''A'' [] 10] init_app)) =
     [''A'', ''B''] \<and>
   current_project_id (exec Startup (run [StartProject ''B'' [] 0, StartProject ''A'' [] 10] init_app)) =
     Some 1 \<and>
   current_project_table (exec Startup (run [StartProject ''B'' [] 0, StartProject ''A'' [] 10] init_app)) =
     Some ''project_B'' \<and>
   sorted_wrt (<) (map proj_id (projects_master
     (run [StartProject ''B'' [] 0, StartProject ''A'' [] 10] init_app)))"
proof -
  let ?one = "run [StartProject ''A'' [] 0, StopProject 5 0, StartProject ''B'' [] 10] init_app"
  let ?zero = "run [StartProject ''A'' [] 0, StopProject 5 0] init_app"
  let ?two = "run [StartProject ''B'' [] 0, StartProject ''A'' [] 10] init_app"
  let ?b = "\<lparr>proj_id = 2, title = ''B'', details = [], table_name = ''project_B''\<rparr>"
  have h1: "\<forall>p \<in> set (projects_master ?one). lookup_table (tables ?one) (table_name p) \<noteq> None"
    and h0: "\<forall>p \<in> set (projects_master ?zero). lookup_table (tables ?zero) (table_name p) \<noteq> None"
    and h2: "\<forall>p \<in> set (projects_master ?two). lookup_table (tables ?two) (table_name p) \<noteq> None"
    by code_simp+
  have only: "?b \<in> set (projects_master ?one) \<and>
          (\<forall>q \<in> set (projects_master ?one). has_open_log (tables ?one) q = (q = ?b))"
    by (intro conjI; code_simp)
  have nobody: "\<forall>q \<in> set (projects_master ?zero). \<not> has_open_log (tables ?zero) q"
    by code_simp
  have f1: "map_option table_name (find (has_open_log (tables ?one)) (projects_master ?one)) = Some ''project_B''"
    and f2: "map_option proj_id (find (has_open_log (tables ?two)) (projects_master ?two)) = Some 1"
    and f3: "map_option table_name (find (has_open_log (tables ?two)) (projects_master ?two)) = Some ''project_B''"
    by code_simp+
  have o1: "map title (projects_master ?two) = [''B'', ''A'']"
    and o2: "map title (list_projects ?two) = [''A'', ''B'']"
    by code_simp+
  have c1: "current_project_id (exec Startup ?one) = Some (proj_id ?b)"
    by (rule startup_recovery [OF h1, THEN conjunct2, THEN conjunct2, THEN conjunct2, THEN conjunct1,
          THEN mp, OF only])
  have c2: "current_project_table (exec Startup ?one) = Some ''project_B''"
    using startup_recovery [OF h1, THEN conjunct2, THEN conjunct2, THEN conjunct1]
    by (simp only: f1)
  have c3: "current_project_id (exec Startup ?zero) = None"
    by (rule startup_recovery [OF h0, THEN conjunct2, THEN conjunct2, THEN conjunct2, THEN conjunct2,
          THEN conjunct1, THEN mp, OF nobody])
  have c4: "current_project_id (exec Startup ?two) = Some 1"
    using startup_recovery [OF h2, THEN conjunct2, THEN conjunct1]
    by (simp only: f2)
  have c5: "current_project_table (exec Startup ?two) = Some ''project_B''"
    using startup_recovery [OF h2, THEN conjunct2, THEN conjunct2, THEN conjunct1]
    by (simp only: f3)
  have c6: "sorted_wrt (<) (map proj_id (projects_master ?two))"
    by (rule startup_recovery [OF h2, where acts = "[StartProject ''B'' [] 0, StartProject ''A'' [] 10]",
          THEN conjunct2, THEN conjunct2, THEN conjunct2, THEN conjunct2, THEN conjunct2])
  from c1 have c1': "current_project_id (exec Startup ?one) = Some 2" by simp
  from c1' c2 c3 o1 o2 c4 c5 c6 show ?thesis by (intro conjI)
qed

text \<open>Where C8 as stated fails: project "B" is created before project "A" and both have an
  open interval. The project listing shows "A" (id 2) first, but the startup scan
  records "B" (id 1), the first in registry order.\<close>

theorem startup_recovery_counterexample:
  "map title (list_projects (run [StartProject ''B'' [] 0, StartProject ''A'' [] 10] init_app)) =
     [''A'', ''B''] \<and>
   map proj_id (list_projects (run [StartProject ''B'' [] 0, StartProject ''A'' [] 10] init_app)) =
     [2, 1] \<and>
   lookup_table (tables (run [StartProject ''B'' [] 0, StartProject ''A'' [] 10] init_app)) ''project_A'' =
     Some [\<lparr>log_id = 1, start_time = 10, end_time = None, duration = None, cumulative_time = None\<rparr>] \<and>
   lookup_table (tables (run [StartProject ''B'' [] 0, StartProject ''A'' [] 10] init_app)) ''project_B'' =
     Some [\<lparr>log_id = 1, start_time = 0, end_time = None, duration = None, cumulative_time = None\<rparr>] \<and>
   current_project_id (exec Startup (run [StartProject ''B'' [] 0, StartProject ''A'' [] 10] init_app)) =
     Some 1 \<and>
   current_project_table (exec Startup (run [StartProject ''B'' [] 0, StartProject ''A'' [] 10] init_app)) =
     Some ''project_B''"
  by (intro conjI; code_simp)

section \<open>C6: the global total is the sum of the per-project totals\<close>

lemma all_durations_result:
  assumes "\<forall>tn \<in> set tns. lookup_table tbls tn \<noteq> None"
  shows "all_durations tbls tns acc =
           Inr (acc @ concat (map (\<lambda>tn. case lookup_table tbls tn of None \<Rightarrow> [] | Some rows \<Rightarrow> map duration rows) tns))"
  using assms by (induction tns arbitrary: acc) auto

lemma find_distinct:
  "distinct (map f xs) \<Longrightarrow> p \<in> set xs \<Longrightarrow> find (\<lambda>q. f q = f p) xs = Some p"
  by (induction xs) auto

lemma project_total:
  assumes "registered s" "p \<in> set (projects_master s)"
  shows "update_total_time s (Some (proj_id p)) =
           Inr (sum_list (map contribution
                  (case lookup_table (tables s) (table_name p) of None \<Rightarrow> [] | Some rows \<Rightarrow> map duration rows)))"
proof -
  have id: "proj_id p \<noteq> 0" and tn: "table_name p = sanitize_table_name (title p)"
    using assms by (auto simp: registered_def)
  obtain rows where rows: "lookup_table (tables s) (table_name p) = Some rows"
    using registered_table_known [OF assms] by blast
  have "distinct (map proj_id (projects_master s))" using assms(1) by (simp add: registered_def)
  then have "find (\<lambda>q. proj_id q = proj_id p) (projects_master s) = Some p"
    using assms(2) by (rule find_distinct)
  then have "sanitize_table_name (get_project_title s (proj_id p)) = table_name p"
    by (simp add: get_project_title_def tn)
  then show ?thesis using id rows
    by (simp add: update_total_time_def truthy_id_def sum_durations_contribution)
qed

lemma global_total:
  assumes "registered s"
  shows "update_total_time s None =
           Inr (sum_list (map (\<lambda>p. sum_list (map contribution
                  (case lookup_table (tables s) (table_name p) of None \<Rightarrow> [] | Some rows \<Rightarrow> map duration rows)))
                (projects_master s)))"
proof -
  have "\<forall>tn \<in> set (map table_name (projects_master s)). lookup_table (tables s) tn \<noteq> None"
    using assms by (auto simp: registered_def)
  from all_durations_result [OF this, of "[]"]
  have "update_total_time s None =
          Inr (sum_list (map contribution (concat (map (\<lambda>tn. case lookup_table (tables s) tn of
                 None \<Rightarrow> [] | Some rows \<Rightarrow> map duration rows) (map table_name (projects_master s))))))"
    by (simp add: update_total_time_def truthy_id_def sum_durations_contribution)
  also have "sum_list (map contribution (concat (map g xs))) =
          sum_list (map (\<lambda>x. sum_list (map contribution (g x))) xs)" for g :: "string \<Rightarrow> string option list" and xs
    by (induction xs) simp_all
  finally show ?thesis by (simp add: comp_def)
qed

text \<open>
  C6. In every store the handlers can reach the registry and the catalog agree, and in
  every such store each per-project total is computed (no database error) and the total
  computed with no project filter equals the sum of the per-project totals over the
  registered projects.
\<close>

theorem total_is_sum_of_project_totals:
  "registered (run acts init_app) \<and>
   (registered s \<longrightarrow>
      (\<exists>totals. map (\<lambda>p. update_total_time s (Some (proj_id p))) (projects_master s) = map Inr totals \<and>
                update_total_time s None = Inr (sum_list totals)))"
proof (intro conjI impI)
  show "registered (run acts init_app)" by (rule reachable_registered)
next
  assume reg: "registered s"
  let ?t = "\<lambda>p. sum_list (map contribution
              (case lookup_table (tables s) (table_name p) of None \<Rightarrow> [] | Some rows \<Rightarrow> map duration rows))"
  have "map (\<lambda>p. update_total_time s (Some (proj_id p))) (projects_master s) =
        map Inr (map ?t (projects_master s))"
    using project_total [OF reg] by simp
  moreover have "update_total_time s None = Inr (sum_list (map ?t (projects_master s)))"
    by (rule global_total [OF reg])
  ultimately show "\<exists>totals. map (\<lambda>p. update_total_time s (Some (proj_id p))) (projects_master s) = map Inr totals \<and>
                update_total_time s None = Inr (sum_list totals)"
    by blast
qed

theorem total_is_sum_of_project_totals_witness:
  "registered (run [StartProject ''A'' [] 0, StopProject 125 0, StartProject ''B'' [] 200,
                    StopProject 260 0, StartRecording (Some ''A'') 300, StopProject 310 0,
                    StartRecording (Some ''B'') 400] init_app) \<and>
   map (\<lambda>p. update_total_time
               (run [StartProject ''A'' [] 0, StopProject 125 0, StartProject ''B'' [] 200,
                     StopProject 260 0, StartRecording (Some ''A'') 300, StopProject 310 0,
                     StartRecording (Some ''B'') 400] init_app) (Some (proj_id p)))
     (projects_master (run [StartProject ''A'' [] 0, StopProject 125 0, StartProject ''B'' [] 200,
                            StopProject 260 0, StartRecording (Some ''A'') 300, StopProject 310 0,
                            StartRecording (Some ''B'') 400] init_app)) = map Inr [135, 60] \<and>
   update_total_time (run [StartProject ''A'' [] 0, StopProject 125 0, StartProject ''B'' [] 200,
                           StopProject 260 0, StartRecording (Some ''A'') 300, StopProject 310 0,
                           StartRecording (Some ''B'') 400] init_app) None = Inr (sum_list [135, 60])"
proof -
  let ?acts = "[StartProject ''A'' [] 0, StopProject 125 0, StartProject ''B'' [] 200,
                StopProject 260 0, StartRecording (Some ''A'') 300, StopProject 310 0,
                StartRecording (Some ''B'') 400]"
  let ?s = "run ?acts init_app"
  note inst = total_is_sum_of_project_totals [where acts = ?acts and s = ?s]
  have reg: "registered ?s" by (rule inst [THEN conjunct1])
  from inst [THEN conjunct2, THEN mp, OF reg]
  obtain totals where t:
    "map (\<lambda>p. update_total_time ?s (Some (proj_id p))) (projects_master ?s) = map Inr totals"
    "update_total_time ?s None = Inr (sum_list totals)"
    by (elim exE conjE)
  have e: "map (\<lambda>p. update_total_time ?s (Some (proj_id p))) (projects_master ?s) = map Inr [135, 60]"
    by code_simp
  have "map Inr totals = (map Inr [135, 60] :: (error + int) list)" using t(1) by (simp only: e)
  then have "totals = [135, 60]" by (auto simp: map_eq_Cons_conv)
  with reg e t(2) show ?thesis by simp
qed

end
